theory Spec2Isabelle
  imports Complex_Main "HOL-Library.AList" "HOL-Library.Multiset" "HOL-Library.Product_Lexorder"
    "HOL-Library.Char_ord" "HOL-Library.List_Lexorder"
begin

section \<open>Data model of \<^verbatim>\<open>src/index.js\<close>\<close>

text \<open>
  The script copies rows of the \<^verbatim>\<open>points\<close> table of a downloaded SQLite dump into
  the Firestore collection \<^verbatim>\<open>hitching-spots\<close>. Strings are lists of code units
  below 256. Coordinates are only compared with the bounds of a geographic point and
  handed on, so they are reals here. The column \<^verbatim>\<open>datetime\<close> is text, as the
  comparison with the text of \<^verbatim>\<open>DATETIME(cutoff, 'unixepoch')\<close> needs: SQLite
  places every number before every text, so a numeric column would never pass the filter.
  The script reads that text twice, and differently. The query compares it, as text,
  with the text SQLite writes for the cutoff in UTC; \<^verbatim>\<open>new Date(datetime)\<close> turns
  it into an instant as the runtime reads it, which for a text without a zone is in the
  local zone of the process. The order of texts is the order of their code units, the
  order of SQLite's default collation.
\<close>

text \<open>The columns that \<^verbatim>\<open>getSrcRows\<close> selects, which \<^verbatim>\<open>formatRow\<close> destructures.\<close>

record srcRow =
  row_id :: string
  lat :: real
  lon :: real
  row_rating :: int
  row_name :: "string option"
  datetime :: string

text \<open>A row of the table \<^verbatim>\<open>points\<close>: the selected columns and the two flags of the filter.\<close>

record point = srcRow +
  banned :: int
  reviewed :: int

text \<open>Firestore's \<^verbatim>\<open>Timestamp\<close> and \<^verbatim>\<open>GeoPoint\<close> values.\<close>

record timestamp =
  seconds :: int
  nanoseconds :: int

record geopoint =
  latitude :: real
  longitude :: real

record user =
  user_type :: string
  user_name :: string

record source =
  source_type :: string
  source_id :: string
  ingestedTimestamp :: timestamp

text \<open>The document \<^verbatim>\<open>dstRow\<close> that \<^verbatim>\<open>formatRow\<close> builds.\<close>

record dstRow =
  coords :: geopoint
  geohash :: string
  rating :: int
  user :: user
  submittedTimestamp :: timestamp
  source :: source

text \<open>
  What a stage can throw. The script has no error classes of its own: the tag records
  the stage whose call threw or whose promise was rejected.
\<close>

datatype error =
  TransportError | WatermarkReadError | SourceQueryError | TransformError | WriteError

text \<open>The lines the script prints, in the order of the source.\<close>

datatype message =
  Running
  | DownloadingFile
  | ConnectingToSqlite
  | ConnectingToFirebase
  | GettingLastIngestedRow
  | GettingRowsAfter int
  | Inserting nat
  | Progress nat nat string timestamp
  | ReachedQuota
  | CompletedWithoutError
  | Failed error

text \<open>
  The collection \<^verbatim>\<open>hitching-spots\<close>: document ids with their documents. The
  target database is the collection together with what the network does to a call:
  whether the query of \<^verbatim>\<open>getDocs\<close> is rejected, and whether the call of
  \<^verbatim>\<open>setDoc\<close> that follows \<open>n\<close> completed writes is rejected for a document.
\<close>

type_synonym collection = "(string \<times> dstRow) list"

record dstDb =
  docs :: collection
  queryRejected :: bool
  setDocRejected :: "nat \<Rightarrow> dstRow \<Rightarrow> bool"

text \<open>The opened dump: \<^verbatim>\<open>db.all\<close> calls back with an error or with the rows.\<close>

datatype srcDb = Unreadable | Points "point list"

section \<open>Constants\<close>

definition MAX_WRITES :: nat where
  "MAX_WRITES = 10000"

section \<open>Library functions the script calls\<close>

text \<open>
  \<^verbatim>\<open>String.prototype.indexOf\<close>, \<^verbatim>\<open>replace\<close> with a string pattern (the first
  occurrence only) and \<^verbatim>\<open>trim\<close>.
\<close>

definition startsWith :: "string \<Rightarrow> string \<Rightarrow> bool" where
  "startsWith s pat = (take (length pat) s = pat)"

fun indexOf :: "string \<Rightarrow> string \<Rightarrow> nat option" where
  "indexOf [] pat = (if pat = [] then Some 0 else None)"
| "indexOf (c # cs) pat =
     (if startsWith (c # cs) pat then Some 0 else map_option Suc (indexOf cs pat))"

definition replace :: "string \<Rightarrow> string \<Rightarrow> string \<Rightarrow> string" where
  "replace s pat rep =
     (case indexOf s pat of
        None \<Rightarrow> s
      | Some i \<Rightarrow> take i s @ rep @ drop (i + length pat) s)"

definition isWhiteSpace :: "char \<Rightarrow> bool" where
  "isWhiteSpace c = ((of_char c :: nat) \<in> {9, 10, 11, 12, 13, 32, 160})"

definition trimStart :: "string \<Rightarrow> string" where
  "trimStart s = dropWhile isWhiteSpace s"

definition trimEnd :: "string \<Rightarrow> string" where
  "trimEnd s = rev (dropWhile isWhiteSpace (rev s))"

definition trim :: "string \<Rightarrow> string" where
  "trim s = trimEnd (trimStart s)"

text \<open>
  \<^verbatim>\<open>new GeoPoint(lat, lon)\<close> throws unless the latitude is in [-90, 90] and the
  longitude in [-180, 180].
\<close>

definition GeoPoint :: "real \<Rightarrow> real \<Rightarrow> error + geopoint" where
  "GeoPoint la lo =
     (if la < -90 \<or> 90 < la \<or> lo < -180 \<or> 180 < lo then Inl TransformError
      else Inr \<lparr>latitude = la, longitude = lo\<rparr>)"

text \<open>
  \<^verbatim>\<open>Timestamp.fromDate\<close> on a date of \<open>ms\<close> milliseconds: whole seconds, the rest
  in nanoseconds.
\<close>

definition fromDate :: "int \<Rightarrow> timestamp" where
  "fromDate ms = \<lparr>seconds = ms div 1000, nanoseconds = (ms mod 1000) * 1000000\<rparr>"

text \<open>Firestore orders timestamps by seconds, then by nanoseconds.\<close>

definition tsKey :: "timestamp \<Rightarrow> int \<times> int" where
  "tsKey t = (seconds t, nanoseconds t)"

text \<open>
  \<^verbatim>\<open>setDoc(doc(db, "hitching-spots", key), row)\<close> without the merge option: the
  document at the key is replaced, or created when the key is new.
\<close>

definition setDoc :: "collection \<Rightarrow> string \<Rightarrow> dstRow \<Rightarrow> collection" where
  "setDoc c k d = AList.update k d c"

text \<open>
  SQLite's \<^verbatim>\<open>DATETIME(c, 'unixepoch')\<close>: the text \<^verbatim>\<open>YYYY-MM-DD HH:MM:SS\<close> of
  the second \<open>c\<close> in UTC, in the proleptic Gregorian calendar. After the year 9999
  SQLite gives NULL, and so does the model. Before the year 0 SQLite writes a signed year;
  the seconds of a Firestore timestamp start at the year 1, so no cutoff is there, and
  the model gives no text.
\<close>

definition digit :: "int \<Rightarrow> char" where
  "digit n = ''0123456789'' ! nat (n mod 10)"

definition pad2 :: "int \<Rightarrow> string" where
  "pad2 n = [digit (n div 10), digit n]"

definition pad4 :: "int \<Rightarrow> string" where
  "pad4 n = [digit (n div 1000), digit (n div 100), digit (n div 10), digit n]"

definition civil_from_days :: "int \<Rightarrow> int \<times> int \<times> int" where
  "civil_from_days z =
     (let z2 = z + 719468;
          era = z2 div 146097;
          doe = z2 mod 146097;
          yoe = (doe - doe div 1460 + doe div 36524 - doe div 146096) div 365;
          doy = doe - (365 * yoe + yoe div 4 - yoe div 100);
          mp = (5 * doy + 2) div 153;
          d = doy - (153 * mp + 2) div 5 + 1;
          m = (if mp < 10 then mp + 3 else mp - 9);
          y = yoe + era * 400
      in (if m \<le> 2 then y + 1 else y, m, d))"

definition DATETIME_unixepoch :: "int \<Rightarrow> string option" where
  "DATETIME_unixepoch c =
     (if c < -62167219200 \<or> 253402300799 < c then None
      else
        (case civil_from_days (c div 86400) of
           (y, m, d) \<Rightarrow>
             Some (pad4 y @ ''-'' @ pad2 m @ ''-'' @ pad2 d @ '' '' @
                   pad2 (c mod 86400 div 3600) @ '':'' @
                   pad2 (c mod 3600 div 60) @ '':'' @ pad2 (c mod 60))))"

text \<open>
  \<^verbatim>\<open>new Date(text).getTime()\<close> is a function of the runtime and of the zone of the
  process, so the functions of the script take it as a parameter. For the concrete runs
  below, the reading of a text \<^verbatim>\<open>YYYY-MM-DD HH:MM:SS\<close>, with or without a point
  and digits after it, in a zone \<open>offset\<close> seconds east of UTC: the text is taken as
  the local time, and three digits of the fraction are kept.
\<close>

definition digits :: "string \<Rightarrow> int" where
  "digits s = foldl (\<lambda>a c. 10 * a + (int (of_char c) - 48)) 0 s"

definition days_from_civil :: "int \<Rightarrow> int \<Rightarrow> int \<Rightarrow> int" where
  "days_from_civil y m d =
     (let y2 = (if m \<le> 2 then y - 1 else y);
          era = y2 div 400;
          yoe = y2 mod 400;
          mp = (m + 9) mod 12;
          doy = (153 * mp + 2) div 5 + d - 1;
          doe = yoe * 365 + yoe div 4 - yoe div 100 + doy
      in era * 146097 + doe - 719468)"

definition dateInZone :: "int \<Rightarrow> string \<Rightarrow> int" where
  "dateInZone offset t =
     (days_from_civil (digits (take 4 t)) (digits (take 2 (drop 5 t)))
          (digits (take 2 (drop 8 t))) * 86400 +
      digits (take 2 (drop 11 t)) * 3600 + digits (take 2 (drop 14 t)) * 60 +
      digits (take 2 (drop 17 t)) - offset) * 1000 +
     digits (take 3 (drop 20 t @ ''000''))"

section \<open>The functions of the script\<close>

subsection \<open>getSrcRows\<close>

text \<open>
  The query of \<^verbatim>\<open>getSrcRows\<close>: the condition after \<^verbatim>\<open>WHERE\<close>, the columns after
  \<^verbatim>\<open>SELECT\<close>, and the rows that pass in the order of \<^verbatim>\<open>ORDER BY datetime\<close>.
  The last condition compares two texts; against NULL it holds for no row.
\<close>

definition ingestible :: "int \<Rightarrow> point \<Rightarrow> bool" where
  "ingestible cutoffTimestamp p =
     (banned p = 0 \<and> reviewed p = 1 \<and> row_rating p > 2 \<and>
      (case DATETIME_unixepoch cutoffTimestamp of
         None \<Rightarrow> False
       | Some cutoffDate \<Rightarrow> datetime p > cutoffDate))"

definition selectColumns :: "point \<Rightarrow> srcRow" where
  "selectColumns p =
     \<lparr>row_id = row_id p, lat = lat p, lon = lon p, row_rating = row_rating p,
      row_name = row_name p, datetime = datetime p\<rparr>"

definition getSrcRows :: "srcDb \<Rightarrow> int \<Rightarrow> error + srcRow list" where
  "getSrcRows db cutoffTimestamp =
     (case db of
        Unreadable \<Rightarrow> Inl SourceQueryError
      | Points ps \<Rightarrow>
          Inr (map selectColumns (sort_key datetime (filter (ingestible cutoffTimestamp) ps))))"

subsection \<open>getLastIngestedRow\<close>

text \<open>
  The query: the documents whose \<^verbatim>\<open>source.type\<close> is \<^verbatim>\<open>hitchwiki\<close>, by
  descending \<^verbatim>\<open>submittedTimestamp\<close>, at most one; then \<^verbatim>\<open>snapshot.docs[0]?.data()\<close>.
\<close>

definition getLastIngestedRow :: "dstDb \<Rightarrow> error + dstRow option" where
  "getLastIngestedRow db =
     (if queryRejected db then Inl WatermarkReadError
      else
        (let snapshot =
               take 1 (rev (sort_key (\<lambda>d. tsKey (submittedTimestamp d))
                          (filter (\<lambda>d. source_type (source d) = ''hitchwiki'')
                             (map snd (docs db)))))
         in Inr (case snapshot of [] \<Rightarrow> None | d # _ \<Rightarrow> Some d)))"

subsection \<open>formatRow\<close>

text \<open>
  The fields in the order of the object literal: the geographic point is made first, so
  its check is the one that throws; \<^verbatim>\<open>name || ""\<close> is the empty string for a
  missing name; \<^verbatim>\<open>new Date(datetime)\<close> is the reading \<open>readDate\<close> of the text;
  \<^verbatim>\<open>Timestamp.now()\<close> is the clock's reading \<open>now\<close>.
\<close>

definition hitchwikiTag :: string where
  "hitchwikiTag = ''(Hitchwiki)''"

definition formatRow ::
  "(real \<Rightarrow> real \<Rightarrow> string) \<Rightarrow> (string \<Rightarrow> int) \<Rightarrow> timestamp \<Rightarrow> srcRow \<Rightarrow> error + dstRow" where
  "formatRow geohashForLocation readDate now r =
     (case GeoPoint (lat r) (lon r) of
        Inl e \<Rightarrow> Inl e
      | Inr p \<Rightarrow>
          Inr \<lparr>coords = p,
               geohash = geohashForLocation (lat r) (lon r),
               rating = row_rating r - 2,
               user = \<lparr>user_type = ''guest'',
                       user_name =
                         trim (replace (case row_name r of None \<Rightarrow> [] | Some n \<Rightarrow> n)
                                 hitchwikiTag [])\<rparr>,
               submittedTimestamp = fromDate (readDate (datetime r)),
               source = \<lparr>source_type = ''hitchwiki'', source_id = row_id r,
                         ingestedTimestamp = now\<rparr>\<rparr>)"

text \<open>
  \<^verbatim>\<open>srcRows.map(formatRow)\<close>: the rows in order, each with the clock's reading at
  its own call; the first row that throws ends the map.
\<close>

fun formatRows ::
  "(real \<Rightarrow> real \<Rightarrow> string) \<Rightarrow> (string \<Rightarrow> int) \<Rightarrow> (nat \<Rightarrow> timestamp) \<Rightarrow> nat \<Rightarrow>
   srcRow list \<Rightarrow> error + dstRow list" where
  "formatRows gh rd clock i [] = Inr []"
| "formatRows gh rd clock i (r # rs) =
     (case formatRow gh rd (clock i) r of
        Inl e \<Rightarrow> Inl e
      | Inr d \<Rightarrow>
          (case formatRows gh rd clock (Suc i) rs of
             Inl e \<Rightarrow> Inl e
           | Inr ds \<Rightarrow> Inr (d # ds)))"

subsection \<open>insertRows\<close>

text \<open>
  The state of the loop: the collection, the counter \<^verbatim>\<open>done\<close>, the lines printed
  and what the loop threw, if it did.
\<close>

record inserted =
  written :: collection
  done_writes :: nat
  printed :: "message list"
  thrown :: "error option"

definition docKey :: "dstRow \<Rightarrow> string" where
  "docKey row = source_type (source row) @ ''-'' @ source_id (source row)"

fun insertLoop :: "(nat \<Rightarrow> dstRow \<Rightarrow> bool) \<Rightarrow> nat \<Rightarrow> dstRow list \<Rightarrow> inserted \<Rightarrow> inserted" where
  "insertLoop rejected totalRows [] st = st"
| "insertLoop rejected totalRows (row # rows) st =
     (if rejected (done_writes st) row then st\<lparr>thrown := Some WriteError\<rparr>
      else
        (let n = Suc (done_writes st);
             st1 = st\<lparr>written := setDoc (written st) (docKey row) row,
                      done_writes := n,
                      printed := printed st @
                        [Progress n totalRows (source_id (source row)) (submittedTimestamp row)]\<rparr>;
             st2 = (if n \<ge> MAX_WRITES then st1\<lparr>printed := printed st1 @ [ReachedQuota]\<rparr>
                    else st1)
         in insertLoop rejected totalRows rows st2))"

definition insertRows :: "dstDb \<Rightarrow> dstRow list \<Rightarrow> inserted" where
  "insertRows db rows =
     insertLoop (setDocRejected db) (length rows) rows
       \<lparr>written = docs db, done_writes = 0, printed = [Inserting (length rows)],
        thrown = None\<rparr>"

subsection \<open>ingest\<close>

text \<open>
  Everything outside the script: whether the download fails, the dump, the target
  database, the geohash function of \<^verbatim>\<open>geofire-common\<close>, the runtime's reading of
  a date text in the zone of the process, and the clock.
\<close>

record world =
  downloadFails :: bool
  srcDb :: srcDb
  dstDb :: dstDb
  geohashForLocation :: "real \<Rightarrow> real \<Rightarrow> string"
  readDate :: "string \<Rightarrow> int"
  clock :: "nat \<Rightarrow> timestamp"

text \<open>
  What a run leaves: how the promise of \<^verbatim>\<open>ingest()\<close> settled (\<open>None\<close> when it is
  fulfilled, the error when it is rejected), the collection and the lines printed.
\<close>

record pass =
  settled :: "error option"
  stored :: collection
  console :: "message list"

text \<open>Lines 203 to 207: the cutoff from the last ingested row.\<close>

definition cutoffOf :: "dstRow option \<Rightarrow> int" where
  "cutoffOf lastIngestedRow =
     (case lastIngestedRow of None \<Rightarrow> 0 | Some d \<Rightarrow> seconds (submittedTimestamp d))"

definition ingest :: "world \<Rightarrow> pass" where
  "ingest w =
     (let log0 = [Running, DownloadingFile] in
      if downloadFails w then
        \<lparr>settled = Some TransportError, stored = docs (dstDb w), console = log0\<rparr>
      else
        (let log1 = log0 @ [ConnectingToSqlite, ConnectingToFirebase, GettingLastIngestedRow] in
         case getLastIngestedRow (dstDb w) of
           Inl e \<Rightarrow> \<lparr>settled = Some e, stored = docs (dstDb w), console = log1\<rparr>
         | Inr lastIngestedRow \<Rightarrow>
             (let cutoff = cutoffOf lastIngestedRow;
                  log2 = log1 @ [GettingRowsAfter cutoff] in
              case getSrcRows (srcDb w) cutoff of
                Inl e \<Rightarrow> \<lparr>settled = Some e, stored = docs (dstDb w), console = log2\<rparr>
              | Inr srcRows \<Rightarrow>
                  (case formatRows (geohashForLocation w) (readDate w) (clock w) 0 srcRows of
                     Inl e \<Rightarrow> \<lparr>settled = Some e, stored = docs (dstDb w), console = log2\<rparr>
                   | Inr dstRows \<Rightarrow>
                       (let r = insertRows (dstDb w) dstRows in
                        \<lparr>settled = None, stored = written r,
                         console = log2 @ printed r @
                           [case thrown r of None \<Rightarrow> CompletedWithoutError
                            | Some err \<Rightarrow> Failed err]\<rparr>)))))"

text \<open>
  The script calls \<^verbatim>\<open>ingest()\<close> and attaches no handler: a rejected promise is an
  unhandled rejection, on which the runtime ends the process with code 1; a fulfilled one
  leaves the exit code 0.
\<close>

definition exitCode :: "pass \<Rightarrow> nat" where
  "exitCode p = (case settled p of None \<Rightarrow> 0 | Some e \<Rightarrow> 1)"

section \<open>Notions the statements use\<close>

text \<open>The pattern stands in the string at position \<open>j\<close>.\<close>

definition occursAt :: "string \<Rightarrow> string \<Rightarrow> nat \<Rightarrow> bool" where
  "occursAt s pat j = (j \<le> length s \<and> startsWith (drop j s) pat)"

text \<open>The document carries the provenance tag the query filters on.\<close>

definition isHitchwiki :: "dstRow \<Rightarrow> bool" where
  "isHitchwiki d = (source_type (source d) = ''hitchwiki'')"

section \<open>Concrete inputs\<close>

text \<open>A target database that is empty and rejects nothing.\<close>

definition acceptingDb :: dstDb where
  "acceptingDb = \<lparr>docs = [], queryRejected = False, setDocRejected = (\<lambda>n d. False)\<rparr>"

text \<open>Documents as \<^verbatim>\<open>formatRow\<close> builds them, with ids 1, 11, 111 and so on.\<close>

definition exampleDoc :: "nat \<Rightarrow> dstRow" where
  "exampleDoc i =
     \<lparr>coords = \<lparr>latitude = 10, longitude = 20\<rparr>,
      geohash = ''s60'',
      rating = 2,
      user = \<lparr>user_type = ''guest'', user_name = ''X''\<rparr>,
      submittedTimestamp = \<lparr>seconds = 1600000000 + int i, nanoseconds = 0\<rparr>,
      source = \<lparr>source_type = ''hitchwiki'', source_id = replicate (Suc i) CHR ''1'',
                ingestedTimestamp = \<lparr>seconds = 1700000000, nanoseconds = 0\<rparr>\<rparr>\<rparr>"

text \<open>
  A dump and a collection for one pass, in a process whose zone is UTC. The collection
  holds one document of this script, submitted half a second after 1600000000 (which is
  12:26:40 on 13 September 2020 in UTC), and one document of another origin. The dump
  holds, over the fixed coordinates (10, 20): three rows whose text is after the text of
  the cutoff, out of order, one of them the row already ingested; a row with rating 2; a
  row whose text is the text of the cutoff; a banned row and a row not reviewed.
\<close>

definition pointAt :: "string \<Rightarrow> int \<Rightarrow> string \<Rightarrow> point" where
  "pointAt i rt created =
     \<lparr>row_id = i, lat = 10, lon = 20, row_rating = rt, row_name = Some ''X (Hitchwiki)'',
      datetime = created, banned = 0, reviewed = 1\<rparr>"

definition docAt :: "string \<Rightarrow> int \<Rightarrow> timestamp \<Rightarrow> timestamp \<Rightarrow> dstRow" where
  "docAt i rt submitted now =
     \<lparr>coords = \<lparr>latitude = 10, longitude = 20\<rparr>,
      geohash = ''s60'',
      rating = rt,
      user = \<lparr>user_type = ''guest'', user_name = ''X''\<rparr>,
      submittedTimestamp = submitted,
      source = \<lparr>source_type = ''hitchwiki'', source_id = i, ingestedTimestamp = now\<rparr>\<rparr>"

definition appDoc :: dstRow where
  "appDoc =
     \<lparr>coords = \<lparr>latitude = 48, longitude = 2\<rparr>,
      geohash = ''u09'',
      rating = 3,
      user = \<lparr>user_type = ''member'', user_name = ''Y''\<rparr>,
      submittedTimestamp = \<lparr>seconds = 1690000000, nanoseconds = 0\<rparr>,
      source = \<lparr>source_type = ''app'', source_id = ''1'',
                ingestedTimestamp = \<lparr>seconds = 1690000000, nanoseconds = 0\<rparr>\<rparr>\<rparr>"

definition exampleDump :: "point list" where
  "exampleDump =
     [pointAt ''43'' 5 ''2020-09-13 12:26:42.750'',
      pointAt ''42'' 4 ''2020-09-13 12:26:41.250'',
      pointAt ''41'' 3 ''2020-09-13 12:26:40.500'',
      pointAt ''40'' 2 ''2020-09-13 12:26:43.000'',
      pointAt ''39'' 4 ''2020-09-13 12:26:40'',
      (pointAt ''38'' 5 ''2020-09-13 12:26:49.000'')\<lparr>banned := 1\<rparr>,
      (pointAt ''37'' 5 ''2020-09-13 12:26:49.000'')\<lparr>reviewed := 0\<rparr>]"

definition doc41 :: dstRow where
  "doc41 = docAt ''41'' 1 \<lparr>seconds = 1600000000, nanoseconds = 500000000\<rparr>
             \<lparr>seconds = 1650000000, nanoseconds = 0\<rparr>"

definition storeBefore :: collection where
  "storeBefore = [(''hitchwiki-41'', doc41), (''app-1'', appDoc)]"

definition world1 :: world where
  "world1 =
     \<lparr>downloadFails = False,
      srcDb = Points exampleDump,
      dstDb = \<lparr>docs = storeBefore, queryRejected = False, setDocRejected = (\<lambda>n d. False)\<rparr>,
      geohashForLocation = (\<lambda>la lo. ''s60''),
      readDate = dateInZone 0,
      clock = (\<lambda>i. \<lparr>seconds = 1700000000 + int i, nanoseconds = 0\<rparr>)\<rparr>"

text \<open>The three documents the pass builds, and the collection it leaves.\<close>

definition built :: "dstRow list" where
  "built =
     [docAt ''41'' 1 \<lparr>seconds = 1600000000, nanoseconds = 500000000\<rparr>
        \<lparr>seconds = 1700000000, nanoseconds = 0\<rparr>,
      docAt ''42'' 2 \<lparr>seconds = 1600000001, nanoseconds = 250000000\<rparr>
        \<lparr>seconds = 1700000001, nanoseconds = 0\<rparr>,
      docAt ''43'' 3 \<lparr>seconds = 1600000002, nanoseconds = 750000000\<rparr>
        \<lparr>seconds = 1700000002, nanoseconds = 0\<rparr>]"

definition storeAfter :: collection where
  "storeAfter =
     [(''hitchwiki-41'', built ! 0), (''app-1'', appDoc),
      (''hitchwiki-42'', built ! 1), (''hitchwiki-43'', built ! 2)]"

text \<open>A first run: the collection holds no document of this script.\<close>

definition world0 :: world where
  "world0 = world1\<lparr>dstDb := (dstDb world1)\<lparr>docs := [(''app-1'', appDoc)]\<rparr>\<rparr>"

text \<open>
  A name with the tag twice, a row with the name of the specification's example, and the
  document built from that row at 1700000000 but for the name of its user.
\<close>

definition twiceTagged :: string where
  "twiceTagged = '' A (Hitchwiki) B (Hitchwiki) ''"

definition namedDoc :: "string \<Rightarrow> dstRow" where
  "namedDoc n =
     (docAt ''7'' 2 \<lparr>seconds = 1600000000, nanoseconds = 0\<rparr>
        \<lparr>seconds = 1700000000, nanoseconds = 0\<rparr>)
     \<lparr>user := \<lparr>user_type = ''guest'', user_name = n\<rparr>\<rparr>"

definition janeRow :: srcRow where
  "janeRow =
     \<lparr>row_id = ''7'', lat = 10, lon = 20, row_rating = 4,
      row_name = Some ''Jane Doe (Hitchwiki)'', datetime = ''2020-09-13 12:26:40''\<rparr>"

text \<open>The example world with the second write rejected, and with the download failing.\<close>

definition world3 :: world where
  "world3 = world1\<lparr>dstDb := (dstDb world1)\<lparr>setDocRejected := (\<lambda>n d. n = 1)\<rparr>\<rparr>"

definition world4 :: world where
  "world4 = world1\<lparr>downloadFails := True\<rparr>"

text \<open>A row created at the very second of the cutoff 1600000000, written with a fraction.\<close>

definition edgePoint :: point where
  "edgePoint = pointAt ''44'' 4 ''2020-09-13 12:26:40.000''"

text \<open>The next pass starts on the collection the first one left.\<close>

definition world2 :: world where
  "world2 = world1\<lparr>dstDb := (dstDb world1)\<lparr>docs := stored (ingest world1)\<rparr>\<rparr>"

text \<open>
  The example pass in a process whose zone is nine hours east of UTC (Asia/Tokyo), the
  documents it builds, and the pass after it.
\<close>

definition worldTokyo :: world where
  "worldTokyo = world1\<lparr>readDate := dateInZone 32400\<rparr>"

definition builtTokyo :: "dstRow list" where
  "builtTokyo =
     [docAt ''41'' 1 \<lparr>seconds = 1599967600, nanoseconds = 500000000\<rparr>
        \<lparr>seconds = 1700000000, nanoseconds = 0\<rparr>,
      docAt ''42'' 2 \<lparr>seconds = 1599967601, nanoseconds = 250000000\<rparr>
        \<lparr>seconds = 1700000001, nanoseconds = 0\<rparr>,
      docAt ''43'' 3 \<lparr>seconds = 1599967602, nanoseconds = 750000000\<rparr>
        \<lparr>seconds = 1700000002, nanoseconds = 0\<rparr>]"

definition worldTokyo2 :: world where
  "worldTokyo2 = worldTokyo\<lparr>dstDb := (dstDb worldTokyo)\<lparr>docs := stored (ingest worldTokyo)\<rparr>\<rparr>"

text \<open>The example world in UTC with a dump of the one row created at the cutoff second.\<close>

definition worldEdge :: world where
  "worldEdge = world1\<lparr>srcDb := Points [edgePoint]\<rparr>"

definition doc44 :: dstRow where
  "doc44 = docAt ''44'' 2 \<lparr>seconds = 1600000000, nanoseconds = 0\<rparr>
             \<lparr>seconds = 1700000000, nanoseconds = 0\<rparr>"

text \<open>
  The example pass in a process whose zone is four hours west of UTC (America/New_York
  in September), the documents it builds, and the pass after it, whose dump has two
  more rows: one created later in the second of the last row, one half an hour later.
\<close>

definition worldNewYork :: world where
  "worldNewYork = world1\<lparr>readDate := dateInZone (-14400)\<rparr>"

definition builtNewYork :: "dstRow list" where
  "builtNewYork =
     [docAt ''41'' 1 \<lparr>seconds = 1600014400, nanoseconds = 500000000\<rparr>
        \<lparr>seconds = 1700000000, nanoseconds = 0\<rparr>,
      docAt ''42'' 2 \<lparr>seconds = 1600014401, nanoseconds = 250000000\<rparr>
        \<lparr>seconds = 1700000001, nanoseconds = 0\<rparr>,
      docAt ''43'' 3 \<lparr>seconds = 1600014402, nanoseconds = 750000000\<rparr>
        \<lparr>seconds = 1700000002, nanoseconds = 0\<rparr>]"

definition laterDump :: "point list" where
  "laterDump =
     exampleDump @
     [pointAt ''45'' 4 ''2020-09-13 12:26:42.900'',
      pointAt ''46'' 5 ''2020-09-13 13:00:00.000'']"

definition worldNewYork2 :: world where
  "worldNewYork2 =
     worldNewYork\<lparr>srcDb := Points laterDump,
                    dstDb := (dstDb worldNewYork)\<lparr>docs := stored (ingest worldNewYork)\<rparr>\<rparr>"

section \<open>Strings: the first occurrence and trimming\<close>

lemma indexOf_first:
  "occursAt s pat i \<Longrightarrow> (\<forall>j<i. \<not> occursAt s pat j) \<Longrightarrow> indexOf s pat = Some i"
proof (induction s arbitrary: i)
  case Nil
  then show ?case by (auto simp: occursAt_def startsWith_def)
next
  case (Cons c cs)
  show ?case
  proof (cases i)
    case 0
    with Cons.prems(1) show ?thesis by (simp add: occursAt_def)
  next
    case (Suc k)
    have a: "occursAt cs pat k" using Cons.prems(1) Suc by (simp add: occursAt_def)
    have b: "\<forall>j<k. \<not> occursAt cs pat j"
    proof (intro allI impI)
      fix j assume "j < k"
      then have "Suc j < i" using Suc by simp
      with Cons.prems(2) have "\<not> occursAt (c # cs) pat (Suc j)" by blast
      then show "\<not> occursAt cs pat j" by (simp add: occursAt_def)
    qed
    have c0: "\<not> startsWith (c # cs) pat"
      using Cons.prems(2) Suc by (auto simp: occursAt_def)
    from Cons.IH[OF a b] c0 show ?thesis using Suc by simp
  qed
qed

lemma indexOf_Some:
  "indexOf s pat = Some i \<Longrightarrow> occursAt s pat i \<and> (\<forall>j<i. \<not> occursAt s pat j)"
proof (induction s arbitrary: i)
  case Nil
  then show ?case by (auto simp: occursAt_def startsWith_def split: if_splits)
next
  case (Cons c cs)
  show ?case
  proof (cases "startsWith (c # cs) pat")
    case True
    with Cons.prems show ?thesis by (simp add: occursAt_def)
  next
    case False
    with Cons.prems obtain k where k: "indexOf cs pat = Some k" "i = Suc k" by auto
    from Cons.IH[OF k(1)] have ih: "occursAt cs pat k" "\<forall>j<k. \<not> occursAt cs pat j" by auto
    have "occursAt (c # cs) pat i" using ih(1) k(2) by (simp add: occursAt_def)
    moreover have "\<forall>j<i. \<not> occursAt (c # cs) pat j"
    proof (intro allI impI)
      fix j assume j: "j < i"
      show "\<not> occursAt (c # cs) pat j"
      proof (cases j)
        case 0
        then show ?thesis using False by (simp add: occursAt_def)
      next
        case (Suc m)
        then have "m < k" using j k(2) by simp
        with ih(2) have "\<not> occursAt cs pat m" by blast
        then show ?thesis using Suc by (simp add: occursAt_def)
      qed
    qed
    ultimately show ?thesis by blast
  qed
qed

lemma indexOf_None:
  "indexOf s pat = None \<Longrightarrow> \<not> occursAt s pat j"
proof (induction s arbitrary: j)
  case Nil
  then show ?case by (auto simp: occursAt_def startsWith_def split: if_splits)
next
  case (Cons c cs)
  then have f: "\<not> startsWith (c # cs) pat" and n: "indexOf cs pat = None"
    by (auto split: if_splits)
  show ?case
  proof (cases j)
    case 0
    then show ?thesis using f by (simp add: occursAt_def)
  next
    case (Suc m)
    from Cons.IH[OF n, of m] show ?thesis using Suc by (simp add: occursAt_def)
  qed
qed

lemma dropWhile_append_stop:
  "x \<noteq> [] \<Longrightarrow> \<not> P (hd x) \<Longrightarrow> dropWhile P (a @ x) = dropWhile P a @ x"
  by (induction a) (auto simp: neq_Nil_conv)

lemma trimStart_keep:
  "x \<noteq> [] \<Longrightarrow> \<not> isWhiteSpace (hd x) \<Longrightarrow> trimStart (a @ x @ b) = trimStart a @ x @ b"
  unfolding trimStart_def using dropWhile_append_stop[of "x @ b" isWhiteSpace a] by simp

lemma trimEnd_keep:
  "x \<noteq> [] \<Longrightarrow> \<not> isWhiteSpace (last x) \<Longrightarrow> trimEnd (a @ x @ b) = a @ x @ trimEnd b"
proof -
  assume x: "x \<noteq> []" and l: "\<not> isWhiteSpace (last x)"
  have "dropWhile isWhiteSpace (rev b @ (rev x @ rev a)) = dropWhile isWhiteSpace (rev b) @ (rev x @ rev a)"
    by (rule dropWhile_append_stop) (use x l in \<open>auto simp: hd_rev\<close>)
  then show ?thesis by (simp add: trimEnd_def)
qed

lemma trim_keep:
  assumes "x \<noteq> []" "\<not> isWhiteSpace (hd x)" "\<not> isWhiteSpace (last x)"
  shows "trim (a @ x @ b) = trimStart a @ x @ trimEnd b"
  unfolding trim_def trimStart_keep[OF assms(1,2)] trimEnd_keep[OF assms(1,3)] ..

lemma tag_facts: "hitchwikiTag \<noteq> []" "\<not> isWhiteSpace (hd hitchwikiTag)" "\<not> isWhiteSpace (last hitchwikiTag)"
  "length hitchwikiTag = 11"
  by (simp_all add: hitchwikiTag_def isWhiteSpace_def)

lemma tag_no_overlap:
  assumes "occursAt s hitchwikiTag i" "occursAt s hitchwikiTag j" "i < j"
  shows "i + 11 \<le> j"
proof (rule ccontr)
  assume "\<not> i + 11 \<le> j"
  then have lt: "j - i < 11" "0 < j - i" using assms(3) by auto
  have ti: "take 11 (drop i s) = hitchwikiTag" and tj: "take 11 (drop j s) = hitchwikiTag"
    using assms(1,2) by (auto simp: occursAt_def startsWith_def tag_facts)
  have "hitchwikiTag ! (j - i) = take 11 (drop i s) ! (j - i)" using ti by simp
  also have "\<dots> = drop i s ! (j - i)" using lt by simp
  finally have a: "hitchwikiTag ! (j - i) = drop i s ! (j - i)" .
  have "length (take 11 (drop j s)) = 11" using tj tag_facts by simp
  then have lj: "j < length s" by auto
  have "hitchwikiTag ! 0 = take 11 (drop j s) ! 0" using tj by simp
  also have "\<dots> = s ! j" using lj by simp
  finally have b: "hitchwikiTag ! 0 = s ! j" .
  have "drop i s ! (j - i) = s ! j" using lj assms(3) by simp
  with a b have "hitchwikiTag ! (j - i) = hitchwikiTag ! 0" by simp
  moreover have "\<forall>k<11. 0 < k \<longrightarrow> hitchwikiTag ! k \<noteq> hitchwikiTag ! 0"
    by (simp add: hitchwikiTag_def All_less_Suc  numeral_eq_Suc)
  ultimately show False using lt by blast
qed

section \<open>The collection under writes\<close>

lemma setDoc_new: "(k, d) \<in> set (setDoc c k d)"
  unfolding setDoc_def by (induction c) auto

lemma setDoc_subset: "set (setDoc c k d) \<subseteq> insert (k, d) (set c)"
  unfolding setDoc_def by (induction c) auto

lemma setDoc_keeps:
  "(k, d) \<in> set c \<Longrightarrow> (k, d) \<in> set (setDoc c k' d') \<or> (k = k' \<and> (k', d') \<in> set (setDoc c k' d'))"
  unfolding setDoc_def by (induction c) auto

lemma setDoc_twice: "setDoc (setDoc c k d) k d' = setDoc c k d'"
  unfolding setDoc_def by simp

text \<open>One turn of the loop whose write is accepted.\<close>

lemma insertLoop_accept:
  assumes "\<not> rej (done_writes st) row"
  shows "\<exists>st2. (\<forall>rows. insertLoop rej t (row # rows) st = insertLoop rej t rows st2) \<and>
           written st2 = setDoc (written st) (docKey row) row \<and>
           done_writes st2 = Suc (done_writes st) \<and>
           thrown st2 = thrown st"
proof -
  let ?n = "Suc (done_writes st)"
  let ?st1 = "st\<lparr>written := setDoc (written st) (docKey row) row,
                      done_writes := ?n,
                      printed := printed st @
                        [Progress ?n t (source_id (source row)) (submittedTimestamp row)]\<rparr>"
  let ?st2 = "if ?n \<ge> MAX_WRITES then ?st1\<lparr>printed := printed ?st1 @ [ReachedQuota]\<rparr> else ?st1"
  have "\<forall>rows. insertLoop rej t (row # rows) st = insertLoop rej t rows ?st2"
    using assms by (simp add: Let_def)
  moreover have "written ?st2 = setDoc (written st) (docKey row) row" by simp
  moreover have "done_writes ?st2 = Suc (done_writes st)" by simp
  moreover have "thrown ?st2 = thrown st" by simp
  ultimately show ?thesis by blast
qed

lemma insertLoop_reject:
  "rej (done_writes st) row \<Longrightarrow> insertLoop rej t (row # rows) st = st\<lparr>thrown := Some WriteError\<rparr>"
  by simp

lemma insertLoop_subset:
  "set (written (insertLoop rej t rows st)) \<subseteq> set (written st) \<union> (\<lambda>r. (docKey r, r)) ` set rows"
proof (induction rows arbitrary: st)
  case Nil
  then show ?case by simp
next
  case (Cons row rows)
  show ?case
  proof (cases "rej (done_writes st) row")
    case True
    then show ?thesis by auto
  next
    case False
    with insertLoop_accept[where rej=rej and st=st and row=row and t=t]
    obtain st2 where e: "insertLoop rej t (row # rows) st = insertLoop rej t rows st2"
      and w: "written st2 = setDoc (written st) (docKey row) row"
      by blast
    from Cons.IH[of st2] setDoc_subset[of "written st" "docKey row" row]
    show ?thesis unfolding e w by auto
  qed
qed

lemma insertLoop_keeps:
  "(k, d) \<in> set (written st) \<Longrightarrow>
   \<exists>d'. (k, d') \<in> set (written (insertLoop rej t rows st)) \<and>
        (d' = d \<or> (d' \<in> set rows \<and> docKey d' = k))"
proof (induction rows arbitrary: st d)
  case Nil
  then show ?case by auto
next
  case (Cons row rows)
  show ?case
  proof (cases "rej (done_writes st) row")
    case True
    then show ?thesis using Cons.prems by auto
  next
    case False
    with insertLoop_accept[where rej=rej and st=st and row=row and t=t]
    obtain st2 where e: "insertLoop rej t (row # rows) st = insertLoop rej t rows st2"
      and w: "written st2 = setDoc (written st) (docKey row) row"
      by blast
    from setDoc_keeps[OF Cons.prems, of "docKey row" row]
    obtain d1 where d1: "(k, d1) \<in> set (written st2)" "d1 = d \<or> (d1 = row \<and> docKey row = k)"
      unfolding w by blast
    from Cons.IH[OF d1(1)] obtain d' where
      "(k, d') \<in> set (written (insertLoop rej t rows st2))"
      "d' = d1 \<or> (d' \<in> set rows \<and> docKey d' = k)"
      by blast
    then show ?thesis unfolding e using d1(2) by auto
  qed
qed

text \<open>The loop up to its first rejected write.\<close>

lemma insertLoop_prefix:
  assumes "\<forall>i<length pre. \<not> rej (done_writes st + i) (pre ! i)"
  shows "insertLoop rej t (pre @ rest) st =
         insertLoop rej t rest (insertLoop rej t pre st) \<and>
         written (insertLoop rej t pre st) =
           foldl (\<lambda>c row. setDoc c (docKey row) row) (written st) pre \<and>
         done_writes (insertLoop rej t pre st) = done_writes st + length pre \<and>
         thrown (insertLoop rej t pre st) = thrown st"
  using assms
proof (induction pre arbitrary: st)
  case Nil
  then show ?case by simp
next
  case (Cons row pre)
  from Cons.prems have "\<not> rej (done_writes st) row" by force
  then have "\<not> rej (done_writes st) row" .
  with insertLoop_accept[where rej=rej and st=st and row=row and t=t]
  obtain st2 where e: "\<And>rows. insertLoop rej t (row # rows) st = insertLoop rej t rows st2"
      and w: "written st2 = setDoc (written st) (docKey row) row"
      and n: "done_writes st2 = Suc (done_writes st)"
      and x: "thrown st2 = thrown st"
    by blast
  have "\<forall>i<length pre. \<not> rej (done_writes st2 + i) (pre ! i)"
  proof (intro allI impI)
    fix i assume "i < length pre"
    then have "Suc i < length (row # pre)" by simp
    with Cons.prems have "\<not> rej (done_writes st + Suc i) ((row # pre) ! Suc i)" by blast
    then show "\<not> rej (done_writes st2 + i) (pre ! i)" by (simp add: n)
  qed
  from Cons.IH[OF this] show ?case
    using e w n x by simp
qed

subsection \<open>The last ingested row\<close>

lemma sorted_key_last:
  "sorted (map f xs) \<Longrightarrow> x \<in> set xs \<Longrightarrow> f x \<le> f (last xs)"
proof (induction xs)
  case Nil
  then show ?case by simp
next
  case (Cons a xs)
  then show ?case by (cases xs) auto
qed

lemma getLastIngestedRow_None:
  assumes "getLastIngestedRow db = Inr None" "(k, d) \<in> set (docs db)"
  shows "\<not> isHitchwiki d"
proof
  assume h: "isHitchwiki d"
  let ?hw = "filter (\<lambda>d. source_type (source d) = ''hitchwiki'') (map snd (docs db))"
  let ?srt = "sort_key (\<lambda>d. tsKey (submittedTimestamp d)) ?hw"
  have "d \<in> set ?hw" using assms(2) h by (force simp: isHitchwiki_def)
  then have "d \<in> set ?srt" by (simp only: set_sort)
  then have "?srt \<noteq> []" by (metis empty_iff empty_set)
  then have "rev ?srt \<noteq> []" by (simp only: rev_is_Nil_conv not_False_eq_True)
  then obtain y ys where "rev ?srt = y # ys" by (cases "rev ?srt") blast+
  then have "take 1 (rev ?srt) = [y]" by simp
  with assms(1) show False
    by (simp add: getLastIngestedRow_def Let_def split: if_splits)
qed

lemma getLastIngestedRow_Some:
  assumes "getLastIngestedRow db = Inr (Some d)"
  shows "isHitchwiki d \<and> (\<exists>k. (k, d) \<in> set (docs db)) \<and>
         (\<forall>k' d'. (k', d') \<in> set (docs db) \<and> isHitchwiki d' \<longrightarrow>
            tsKey (submittedTimestamp d') \<le> tsKey (submittedTimestamp d))"
proof -
  let ?hw = "filter (\<lambda>d. source_type (source d) = ''hitchwiki'') (map snd (docs db))"
  let ?srt = "sort_key (\<lambda>d. tsKey (submittedTimestamp d)) ?hw"
  from assms have s: "(case take 1 (rev ?srt) of [] \<Rightarrow> None | d # _ \<Rightarrow> Some d) = Some d"
    by (simp add: getLastIngestedRow_def Let_def split: if_splits)
  then have ne: "?srt \<noteq> []" by auto
  then obtain y ys where r: "rev ?srt = y # ys" by (cases "rev ?srt") auto
  with s have "y = d" by simp
  with r have dl: "d = last ?srt" using hd_rev[of ?srt] by simp
  with ne have "d \<in> set ?srt" using last_in_set by blast
  then have dm: "d \<in> set ?hw" by (simp only: set_sort)
  have mx: "tsKey (submittedTimestamp d') \<le> tsKey (submittedTimestamp d)"
    if "(k', d') \<in> set (docs db)" "isHitchwiki d'" for k' d'
  proof -
    have "d' \<in> set ?hw" using that by (force simp: isHitchwiki_def)
    then have "d' \<in> set ?srt" by (simp only: set_sort)
    from sorted_key_last[OF sorted_sort_key this] show ?thesis unfolding dl .
  qed
  from dm mx show ?thesis by (auto simp: isHitchwiki_def)
qed

lemma getLastIngestedRow_docs:
  "getLastIngestedRow db = Inr l \<Longrightarrow> getLastIngestedRow db' = Inr l' \<Longrightarrow> docs db = docs db' \<Longrightarrow> l = l'"
  by (simp add: getLastIngestedRow_def Let_def split: if_splits)

lemma tsKey_le_seconds: "tsKey a \<le> tsKey b \<Longrightarrow> seconds a \<le> seconds b"
  by (auto simp: tsKey_def less_eq_prod_def)

lemma cutoff_bounds:
  assumes "getLastIngestedRow db = Inr l" "(k, d) \<in> set (docs db)" "isHitchwiki d"
  shows "seconds (submittedTimestamp d) \<le> cutoffOf l"
proof (cases l)
  case None
  with assms getLastIngestedRow_None show ?thesis by blast
next
  case (Some m)
  with assms getLastIngestedRow_Some[of db m]
  have "tsKey (submittedTimestamp d) \<le> tsKey (submittedTimestamp m)" by blast
  then show ?thesis using Some by (simp add: cutoffOf_def tsKey_le_seconds)
qed

subsection \<open>The whole loop\<close>

lemma insertRows_accepting:
  assumes "\<forall>i<length rows. \<not> setDocRejected db i (rows ! i)"
  shows "written (insertRows db rows) =
           foldl (\<lambda>c row. setDoc c (docKey row) row) (docs db) rows \<and>
         done_writes (insertRows db rows) = length rows \<and>
         thrown (insertRows db rows) = None"
proof -
  let ?st = "\<lparr>written = docs db, done_writes = 0, printed = [Inserting (length rows)],
              thrown = None\<rparr>"
  have "\<forall>i<length rows. \<not> setDocRejected db (done_writes ?st + i) (rows ! i)"
    using assms by simp
  from insertLoop_prefix[OF this, of "length rows" "[]"]
  show ?thesis by (simp add: insertRows_def)
qed

lemma insertRows_rejecting:
  assumes "\<forall>i<length pre. \<not> setDocRejected db i (pre ! i)"
      and "setDocRejected db (length pre) bad"
  shows "written (insertRows db (pre @ bad # post)) =
           foldl (\<lambda>c row. setDoc c (docKey row) row) (docs db) pre \<and>
         done_writes (insertRows db (pre @ bad # post)) = length pre \<and>
         thrown (insertRows db (pre @ bad # post)) = Some WriteError"
proof -
  let ?t = "length (pre @ bad # post)"
  let ?st = "\<lparr>written = docs db, done_writes = 0, printed = [Inserting ?t],
              thrown = None\<rparr>"
  let ?mid = "insertLoop (setDocRejected db) ?t pre ?st"
  have "\<forall>i<length pre. \<not> setDocRejected db (done_writes ?st + i) (pre ! i)"
    using assms(1) by simp
  from insertLoop_prefix[OF this, of ?t "bad # post"]
  have e: "insertLoop (setDocRejected db) ?t (pre @ bad # post) ?st =
           insertLoop (setDocRejected db) ?t (bad # post) ?mid"
    and w: "written ?mid = foldl (\<lambda>c row. setDoc c (docKey row) row) (docs db) pre"
    and n: "done_writes ?mid = length pre"
    by simp_all
  have "insertLoop (setDocRejected db) ?t (bad # post) ?mid = ?mid\<lparr>thrown := Some WriteError\<rparr>"
    using assms(2) n by (simp only: insertLoop_reject)
  with e w n show ?thesis by (simp add: insertRows_def)
qed

section \<open>Facts about the stages\<close>

lemma formatRow_Inr:
  assumes "formatRow gh rd now r = Inr d"
  shows "rating d = row_rating r - 2"
    and "isHitchwiki d"
    and "submittedTimestamp d = fromDate (rd (datetime r))"
    and "docKey d = ''hitchwiki-'' @ row_id r"
    and "user_name (user d) =
           trim (replace (case row_name r of None \<Rightarrow> [] | Some n \<Rightarrow> n) hitchwikiTag [])"
    and "ingestedTimestamp (source d) = now"
  using assms
  by (auto simp: formatRow_def GeoPoint_def isHitchwiki_def docKey_def split: if_splits)

lemma formatRows_from:
  "formatRows gh rd clk i rs = Inr ds \<Longrightarrow> d \<in> set ds \<Longrightarrow>
   \<exists>r\<in>set rs. \<exists>j. formatRow gh rd (clk j) r = Inr d"
proof (induction rs arbitrary: i ds)
  case Nil
  then show ?case by simp
next
  case (Cons r rs)
  from Cons.prems(1) obtain d0 ds0 where
    h: "formatRow gh rd (clk i) r = Inr d0" "formatRows gh rd clk (Suc i) rs = Inr ds0"
       "ds = d0 # ds0"
    by (auto split: sum.splits)
  show ?case
  proof (cases "d = d0")
    case True
    with h(1) show ?thesis by auto
  next
    case False
    with Cons.prems(2) h(3) have "d \<in> set ds0" by simp
    from Cons.IH[OF h(2) this] show ?thesis by auto
  qed
qed

lemma getSrcRows_mem:
  "getSrcRows (Points ps) c = Inr rows \<Longrightarrow>
   r \<in> set rows \<longleftrightarrow> (\<exists>p\<in>set ps. ingestible c p \<and> r = selectColumns p)"
  by (auto simp: getSrcRows_def)

lemma selectColumns_fields:
  "row_id (selectColumns p) = row_id p"
  "row_rating (selectColumns p) = row_rating p"
  "row_name (selectColumns p) = row_name p"
  "datetime (selectColumns p) = datetime p"
  by (simp_all add: selectColumns_def)

lemma seconds_fromDate: "c * 1000 \<le> ms \<Longrightarrow> c \<le> seconds (fromDate ms)"
  by (simp add: fromDate_def)

text \<open>A run either leaves the collection as it was and is rejected, or reaches the writer.\<close>

lemma ingest_cases:
  "(stored (ingest w) = docs (dstDb w) \<and> settled (ingest w) \<noteq> None) \<or>
   (\<exists>l rows ds.
      \<not> downloadFails w \<and>
      getLastIngestedRow (dstDb w) = Inr l \<and>
      getSrcRows (srcDb w) (cutoffOf l) = Inr rows \<and>
      formatRows (geohashForLocation w) (readDate w) (clock w) 0 rows = Inr ds \<and>
      stored (ingest w) = written (insertRows (dstDb w) ds) \<and>
      settled (ingest w) = None \<and>
      last (console (ingest w)) =
        (case thrown (insertRows (dstDb w) ds) of
           None \<Rightarrow> CompletedWithoutError | Some err \<Rightarrow> Failed err))"
  by (simp add: ingest_def Let_def split: sum.splits)

lemma insertRows_subset:
  "set (written (insertRows db ds)) \<subseteq> set (docs db) \<union> (\<lambda>r. (docKey r, r)) ` set ds"
  using insertLoop_subset[of "setDocRejected db" "length ds" ds
      "\<lparr>written = docs db, done_writes = 0, printed = [Inserting (length ds)], thrown = None\<rparr>"]
  by (simp add: insertRows_def)

lemma insertRows_keeps:
  "(k, d) \<in> set (docs db) \<Longrightarrow>
   \<exists>d'. (k, d') \<in> set (written (insertRows db ds)) \<and>
        (d' = d \<or> (d' \<in> set ds \<and> docKey d' = k))"
  using insertLoop_keeps[of k d
      "\<lparr>written = docs db, done_writes = 0, printed = [Inserting (length ds)], thrown = None\<rparr>"
      "setDocRejected db" "length ds" ds]
  by (simp add: insertRows_def)

section \<open>The example pass, step by step\<close>

lemma ingest_reaches_writer:
  assumes "\<not> downloadFails w"
      and "getLastIngestedRow (dstDb w) = Inr l"
      and "getSrcRows (srcDb w) (cutoffOf l) = Inr rows"
      and "formatRows (geohashForLocation w) (readDate w) (clock w) 0 rows = Inr ds"
  shows "stored (ingest w) = written (insertRows (dstDb w) ds)"
    and "settled (ingest w) = None"
    and "console (ingest w) =
           [Running, DownloadingFile, ConnectingToSqlite, ConnectingToFirebase,
            GettingLastIngestedRow, GettingRowsAfter (cutoffOf l)] @
           printed (insertRows (dstDb w) ds) @
           [case thrown (insertRows (dstDb w) ds) of
              None \<Rightarrow> CompletedWithoutError | Some err \<Rightarrow> Failed err]"
  using assms by (simp_all add: ingest_def Let_def)

text \<open>SQLite's text of some seconds, and the runtime's reading of some texts in UTC.\<close>

lemma DATETIME_values:
  "DATETIME_unixepoch 0 = Some ''1970-01-01 00:00:00''"
  "DATETIME_unixepoch 951782400 = Some ''2000-02-29 00:00:00''"
  "DATETIME_unixepoch 1600000000 = Some ''2020-09-13 12:26:40''"
  "DATETIME_unixepoch (-62167219200) = Some ''0000-01-01 00:00:00''"
  "DATETIME_unixepoch 253402300799 = Some ''9999-12-31 23:59:59''"
  "DATETIME_unixepoch 253402300800 = None"
  by code_simp+

lemma read_in_UTC:
  "dateInZone 0 ''2020-09-13 12:26:40'' = 1600000000000"
  "dateInZone 0 ''2020-09-13 12:26:40.500'' = 1600000000500"
  "dateInZone 0 ''2020-09-13 12:26:41.250'' = 1600000001250"
  "dateInZone 0 ''2020-09-13 12:26:42.750'' = 1600000002750"
  by (simp_all add: dateInZone_def days_from_civil_def digits_def Let_def)

lemma world1_last: "getLastIngestedRow (dstDb world1) = Inr (Some doc41)"
  by (simp add: getLastIngestedRow_def world1_def storeBefore_def doc41_def docAt_def
      appDoc_def tsKey_def)

lemma world1_cutoff: "cutoffOf (Some doc41) = 1600000000"
  by (simp add: cutoffOf_def doc41_def docAt_def)

lemma world1_selected:
  "getSrcRows (srcDb world1) 1600000000 =
     Inr (map selectColumns
            [pointAt ''41'' 3 ''2020-09-13 12:26:40.500'', pointAt ''42'' 4 ''2020-09-13 12:26:41.250'',
             pointAt ''43'' 5 ''2020-09-13 12:26:42.750''])"
  by (simp add: getSrcRows_def world1_def exampleDump_def pointAt_def ingestible_def
      DATETIME_values less_char_def less_eq_char_def)

lemma cleaned_X: "trim (replace ''X (Hitchwiki)'' hitchwikiTag []) = ''X''"
  by (simp add: trim_def trimStart_def trimEnd_def replace_def hitchwikiTag_def
      startsWith_def isWhiteSpace_def)

lemma world1_built:
  "formatRows (geohashForLocation world1) (readDate world1) (clock world1) 0
     (map selectColumns
        [pointAt ''41'' 3 ''2020-09-13 12:26:40.500'', pointAt ''42'' 4 ''2020-09-13 12:26:41.250'',
         pointAt ''43'' 5 ''2020-09-13 12:26:42.750'']) = Inr built"
  by (simp add: world1_def formatRow_def GeoPoint_def selectColumns_def pointAt_def
      cleaned_X read_in_UTC fromDate_def built_def docAt_def)

lemma world1_written:
  "written (insertRows (dstDb world1) built) = storeAfter"
  "thrown (insertRows (dstDb world1) built) = None"
  by (simp_all add: insertRows_def world1_def built_def storeBefore_def storeAfter_def
      doc41_def docAt_def docKey_def setDoc_def Let_def MAX_WRITES_def)

lemma world1_stored: "stored (ingest world1) = storeAfter"
proof -
  have "\<not> downloadFails world1" by (simp add: world1_def)
  from ingest_reaches_writer(1)[OF this world1_last, of _ built]
  show ?thesis by (simp only: world1_cutoff world1_selected world1_built world1_written)
qed

section \<open>The claims\<close>

subsection \<open>The write budget\<close>

text \<open>
  C1. The claim: the writer issues at most \<^verbatim>\<open>MAX_WRITES\<close> writes and leaves the
  rest unwritten. The loop prints the quota line and goes on: with 10001 documents and
  every write accepted, it completes 10001 writes, more than \<^verbatim>\<open>MAX_WRITES\<close>,
  throws nothing, and the last document is in the collection.
\<close>

theorem insertRows_exceeds_MAX_WRITES:
  "done_writes (insertRows acceptingDb (map exampleDoc [0..<10001])) = 10001 \<and>
   MAX_WRITES < done_writes (insertRows acceptingDb (map exampleDoc [0..<10001])) \<and>
   thrown (insertRows acceptingDb (map exampleDoc [0..<10001])) = None \<and>
   (docKey (exampleDoc 10000), exampleDoc 10000) \<in>
     set (written (insertRows acceptingDb (map exampleDoc [0..<10001])))"
proof -
  let ?rows = "map exampleDoc [0..<10001]"
  have acc: "\<forall>i<length ?rows. \<not> setDocRejected acceptingDb i (?rows ! i)"
    by (simp add: acceptingDb_def)
  note r = insertRows_accepting[OF acc]
  have split: "[0..<10001] = [0..<10000] @ [10000::nat]"
  proof -
    have "[0..<Suc 10000] = [0..<10000] @ [10000::nat]" by (rule upt_Suc_append) simp
    then show ?thesis by simp
  qed
  have "written (insertRows acceptingDb ?rows) =
        setDoc (foldl (\<lambda>c row. setDoc c (docKey row) row) (docs acceptingDb)
                  (map exampleDoc [0..<10000]))
          (docKey (exampleDoc 10000)) (exampleDoc 10000)"
    using r unfolding split by simp
  then have m: "(docKey (exampleDoc 10000), exampleDoc 10000) \<in>
                set (written (insertRows acceptingDb ?rows))"
    by (simp only: setDoc_new)
  from r m show ?thesis by (simp add: MAX_WRITES_def)
qed

subsection \<open>The cutoff of a pass and the upsert\<close>

text \<open>
  C4. When the query is answered and the collection holds no document with the tag
  \<^verbatim>\<open>hitchwiki\<close>, \<^verbatim>\<open>getLastIngestedRow\<close> returns nothing, does not throw, and the
  pass selects with the cutoff 0. When such a document exists, it returns one whose
  submitted timestamp is the greatest among them, and the pass selects with the seconds
  of that timestamp.
\<close>

theorem first_run_cutoff:
  assumes "\<not> downloadFails w" and "\<not> queryRejected (dstDb w)"
  shows "((\<forall>(k, d) \<in> set (docs (dstDb w)). \<not> isHitchwiki d) \<longrightarrow>
            getLastIngestedRow (dstDb w) = Inr None \<and> cutoffOf None = 0 \<and>
            GettingRowsAfter 0 \<in> set (console (ingest w))) \<and>
         ((\<exists>(k, d) \<in> set (docs (dstDb w)). isHitchwiki d) \<longrightarrow>
            (\<exists>m. getLastIngestedRow (dstDb w) = Inr (Some m) \<and>
                 isHitchwiki m \<and> m \<in> snd ` set (docs (dstDb w)) \<and>
                 (\<forall>(k, d) \<in> set (docs (dstDb w)).
                    isHitchwiki d \<longrightarrow>
                    tsKey (submittedTimestamp d) \<le> tsKey (submittedTimestamp m)) \<and>
                 cutoffOf (Some m) = seconds (submittedTimestamp m) \<and>
                 GettingRowsAfter (seconds (submittedTimestamp m)) \<in> set (console (ingest w))))"
proof -
  obtain l where l: "getLastIngestedRow (dstDb w) = Inr l"
    using assms(2) by (simp add: getLastIngestedRow_def Let_def)
  have con: "GettingRowsAfter (cutoffOf l) \<in> set (console (ingest w))"
    using assms(1) l by (simp add: ingest_def Let_def split: sum.splits)
  have none: "l = None \<and> cutoffOf None = 0 \<and> GettingRowsAfter 0 \<in> set (console (ingest w))"
    if n: "\<forall>(k, d) \<in> set (docs (dstDb w)). \<not> isHitchwiki d"
  proof -
    have "l = None"
    proof (cases l)
      case None
      then show ?thesis .
    next
      case (Some m)
      from getLastIngestedRow_Some[of "dstDb w" m] l Some n show ?thesis by blast
    qed
    with con show ?thesis by (simp add: cutoffOf_def)
  qed
  have some: "\<exists>m. l = Some m \<and> isHitchwiki m \<and> m \<in> snd ` set (docs (dstDb w)) \<and>
                 (\<forall>(k, d) \<in> set (docs (dstDb w)).
                    isHitchwiki d \<longrightarrow>
                    tsKey (submittedTimestamp d) \<le> tsKey (submittedTimestamp m)) \<and>
                 cutoffOf (Some m) = seconds (submittedTimestamp m) \<and>
                 GettingRowsAfter (seconds (submittedTimestamp m)) \<in> set (console (ingest w))"
    if e: "\<exists>(k, d) \<in> set (docs (dstDb w)). isHitchwiki d"
  proof -
    from e obtain k d where kd: "(k, d) \<in> set (docs (dstDb w))" "isHitchwiki d" by blast
    have "l \<noteq> None"
    proof
      assume "l = None"
      with l have "getLastIngestedRow (dstDb w) = Inr None" by simp
      from getLastIngestedRow_None[OF this kd(1)] kd(2) show False by simp
    qed
    then obtain m where m: "l = Some m" by (cases l) simp_all
    from getLastIngestedRow_Some[of "dstDb w" m] l m
    have g: "isHitchwiki m" "\<exists>k. (k, m) \<in> set (docs (dstDb w))"
      "\<forall>k' d'. (k', d') \<in> set (docs (dstDb w)) \<and> isHitchwiki d' \<longrightarrow>
         tsKey (submittedTimestamp d') \<le> tsKey (submittedTimestamp m)"
      by blast+
    from g(2) have "m \<in> snd ` set (docs (dstDb w))" by force
    moreover have "cutoffOf (Some m) = seconds (submittedTimestamp m)"
      by (simp add: cutoffOf_def)
    moreover from g(3) have "\<forall>(k, d) \<in> set (docs (dstDb w)).
                    isHitchwiki d \<longrightarrow>
                    tsKey (submittedTimestamp d) \<le> tsKey (submittedTimestamp m)"
      by blast
    ultimately show ?thesis using m g(1) con by (simp add: cutoffOf_def)
  qed
  from none some l show ?thesis by auto
qed

theorem first_run_cutoff_witness:
  "getLastIngestedRow (dstDb world0) = Inr None \<and>
   GettingRowsAfter 0 \<in> set (console (ingest world0)) \<and>
   getLastIngestedRow (dstDb world1) = Inr (Some doc41) \<and>
   GettingRowsAfter 1600000000 \<in> set (console (ingest world1))"
proof -
  have a0: "\<not> downloadFails world0" "\<not> queryRejected (dstDb world0)"
    by (simp_all add: world0_def world1_def)
  have n0: "\<forall>(k, d) \<in> set (docs (dstDb world0)). \<not> isHitchwiki d"
    by (simp add: world0_def isHitchwiki_def appDoc_def)
  have a1: "\<not> downloadFails world1" "\<not> queryRejected (dstDb world1)"
    by (simp_all add: world1_def)
  have e1: "\<exists>(k, d) \<in> set (docs (dstDb world1)). isHitchwiki d"
    by (simp add: world1_def storeBefore_def isHitchwiki_def doc41_def docAt_def)
  from first_run_cutoff[OF a0] n0
  have r0: "getLastIngestedRow (dstDb world0) = Inr None"
    "GettingRowsAfter 0 \<in> set (console (ingest world0))"
    by blast+
  from first_run_cutoff[OF a1] e1 obtain m where
    m: "getLastIngestedRow (dstDb world1) = Inr (Some m)"
       "GettingRowsAfter (seconds (submittedTimestamp m)) \<in> set (console (ingest world1))"
    by blast
  from m(1) world1_last have "m = doc41" by simp
  with m(2) have "GettingRowsAfter 1600000000 \<in> set (console (ingest world1))"
    using world1_cutoff by (simp add: cutoffOf_def)
  with r0 world1_last show ?thesis by blast
qed

text \<open>
  C5. A document built from a source row is written under the key
  \<^verbatim>\<open>hitchwiki-\<close> followed by the row's id. Writing it a second time leaves the
  collection as the first write left it; writing the document built from the same row
  at another time goes to the same key, so the keys of the collection stay the same and
  the collection is the one a single write of the later document gives.
\<close>

theorem upsert_idempotent:
  assumes "formatRow gh rd t1 r = Inr d1" and "formatRow gh rd t2 r = Inr d2"
      and "\<not> setDocRejected db 0 d1" and "\<not> setDocRejected db 0 d2"
  shows "docKey d1 = ''hitchwiki-'' @ row_id r \<and> docKey d2 = docKey d1 \<and>
         written (insertRows (db\<lparr>docs := written (insertRows db [d1])\<rparr>) [d1]) =
           written (insertRows db [d1]) \<and>
         written (insertRows (db\<lparr>docs := written (insertRows db [d1])\<rparr>) [d2]) =
           written (insertRows db [d2]) \<and>
         map fst (written (insertRows (db\<lparr>docs := written (insertRows db [d1])\<rparr>) [d2])) =
           map fst (written (insertRows db [d1]))"
proof -
  have k1: "docKey d1 = ''hitchwiki-'' @ row_id r" and k2: "docKey d2 = ''hitchwiki-'' @ row_id r"
    using formatRow_Inr(4)[OF assms(1)] formatRow_Inr(4)[OF assms(2)] by simp_all
  have w: "written (insertRows x [d]) = setDoc (docs x) (docKey d) d"
    if "\<not> setDocRejected x 0 d" for x d
    using that by (simp add: insertRows_def Let_def)
  have w1: "written (insertRows db [d1]) = setDoc (docs db) (docKey d1) d1"
    and w2: "written (insertRows db [d2]) = setDoc (docs db) (docKey d2) d2"
    using w assms(3,4) by simp_all
  let ?db' = "db\<lparr>docs := written (insertRows db [d1])\<rparr>"
  have r1: "written (insertRows ?db' [d1]) = setDoc (docs ?db') (docKey d1) d1"
    and r2: "written (insertRows ?db' [d2]) = setDoc (docs ?db') (docKey d2) d2"
    using w[of ?db' d1] w[of ?db' d2] assms(3,4) by simp_all
  have keys: "map fst (setDoc c k a) = map fst (setDoc c k b)" for c :: collection and k a b
    by (simp add: setDoc_def update_keys)
  from k1 k2 have kk: "docKey d2 = docKey d1" by simp
  have "written (insertRows ?db' [d1]) = written (insertRows db [d1])"
    by (simp only: r1) (simp add: w1 setDoc_twice)
  moreover have "written (insertRows ?db' [d2]) = written (insertRows db [d2])"
    by (simp only: r2) (simp add: w1 w2 kk setDoc_twice)
  moreover have "map fst (written (insertRows ?db' [d2])) = map fst (written (insertRows db [d1]))"
    using keys[of "docs db" "docKey d1" d2 d1]
    by (simp only: r2) (simp add: w1 kk setDoc_twice)
  ultimately show ?thesis using k1 kk by simp
qed

theorem upsert_idempotent_witness:
  "docKey (built ! 1) = ''hitchwiki-42'' \<and>
   written (insertRows ((dstDb world1)\<lparr>docs := written (insertRows (dstDb world1) [built ! 1])\<rparr>)
              [built ! 1]) =
     written (insertRows (dstDb world1) [built ! 1]) \<and>
   written (insertRows (dstDb world1) [built ! 1]) =
     [(''hitchwiki-41'', doc41), (''app-1'', appDoc), (''hitchwiki-42'', built ! 1)]"
proof -
  let ?r = "selectColumns (pointAt ''42'' 4 ''2020-09-13 12:26:41.250'')"
  let ?t = "\<lparr>seconds = 1700000001, nanoseconds = 0\<rparr>"
  have f: "formatRow (\<lambda>la lo. ''s60'') (dateInZone 0) ?t ?r = Inr (built ! 1)"
    by (simp add: formatRow_def GeoPoint_def selectColumns_def pointAt_def
      cleaned_X read_in_UTC fromDate_def built_def docAt_def)
  have a: "\<not> setDocRejected (dstDb world1) 0 (built ! 1)" by (simp add: world1_def)
  have i: "row_id ?r = ''42''" by (simp add: selectColumns_def pointAt_def)
  have e: "written (insertRows (dstDb world1) [built ! 1]) =
     [(''hitchwiki-41'', doc41), (''app-1'', appDoc), (''hitchwiki-42'', built ! 1)]"
    by (simp add: insertRows_def world1_def built_def storeBefore_def
      docAt_def docKey_def setDoc_def Let_def)
  from upsert_idempotent[OF f f a a] i e show ?thesis by simp
qed

subsection \<open>The transform\<close>

lemma trim_surrounding:
  "\<exists>a b. s = a @ trim s @ b \<and> list_all isWhiteSpace a \<and> list_all isWhiteSpace b \<and>
         (trim s = [] \<or> (\<not> isWhiteSpace (hd (trim s)) \<and> \<not> isWhiteSpace (last (trim s))))"
proof -
  let ?a = "takeWhile isWhiteSpace s"
  let ?m = "dropWhile isWhiteSpace s"
  let ?b = "rev (takeWhile isWhiteSpace (rev ?m))"
  have t: "trim s = rev (dropWhile isWhiteSpace (rev ?m))"
    by (simp add: trim_def trimStart_def trimEnd_def)
  have x: "rev (dropWhile isWhiteSpace (rev ?m)) @ rev (takeWhile isWhiteSpace (rev ?m)) =
           rev (takeWhile isWhiteSpace (rev ?m) @ dropWhile isWhiteSpace (rev ?m))"
    by (rule rev_append[symmetric])
  have y: "rev (takeWhile isWhiteSpace (rev ?m) @ dropWhile isWhiteSpace (rev ?m)) = ?m"
    by (simp only: takeWhile_dropWhile_id rev_rev_ident)
  have m: "?m = trim s @ ?b" unfolding t by (simp only: x y)
  have s: "s = ?a @ trim s @ ?b" using m by (metis takeWhile_dropWhile_id)
  have wa: "list_all isWhiteSpace ?a"
    unfolding list_all_iff using set_takeWhileD by fast
  have wb: "list_all isWhiteSpace ?b"
    unfolding list_all_iff set_rev using set_takeWhileD by fast
  have ends: "\<not> isWhiteSpace (hd (trim s)) \<and> \<not> isWhiteSpace (last (trim s))" if ne: "trim s \<noteq> []"
  proof -
    from ne have d: "dropWhile isWhiteSpace (rev ?m) \<noteq> []" unfolding t by simp
    have "last (trim s) = hd (dropWhile isWhiteSpace (rev ?m))"
      unfolding t by (simp add: last_rev)
    with d have l: "\<not> isWhiteSpace (last (trim s))" using hd_dropWhile[OF d] by simp
    have "?m \<noteq> []"
    proof
      assume "?m = []"
      with m have "trim s @ ?b = []" by (simp only:)
      with ne show False by (simp only: append_is_Nil_conv) simp
    qed
    then have "\<not> isWhiteSpace (hd ?m)" by (rule hd_dropWhile)
    moreover have "hd ?m = hd (trim s)" using m ne by (metis hd_append2)
    ultimately show ?thesis using l by simp
  qed
  from s wa wb ends show ?thesis by blast
qed

lemma replace_absent:
  "(\<forall>j. \<not> occursAt s pat j) \<Longrightarrow> replace s pat rep = s"
proof -
  assume a: "\<forall>j. \<not> occursAt s pat j"
  have "indexOf s pat = None"
  proof (cases "indexOf s pat")
    case None
    then show ?thesis .
  next
    case (Some i)
    from indexOf_Some[OF this] a show ?thesis by blast
  qed
  then show ?thesis by (simp add: replace_def)
qed

lemma replace_at:
  assumes "occursAt s pat i" and "\<forall>k<i. \<not> occursAt s pat k"
  shows "replace s pat rep = take i s @ rep @ drop (i + length pat) s"
  using indexOf_first[OF assms] by (simp add: replace_def)

lemma occursAt_append: "occursAt (pre @ pat @ post) pat (length pre)"
  by (simp add: occursAt_def startsWith_def)

text \<open>
  C7. The name of the user in the built document: empty when the row has no name;
  \<^verbatim>\<open>Jane Doe\<close> for \<^verbatim>\<open>Jane Doe (Hitchwiki)\<close>; the trimmed name when the tag does
  not occur in it; and, when the tag first occurs after \<open>pre\<close>, the trimmed rest with
  that occurrence taken out. Trimming removes exactly the white space around the text.
\<close>

theorem name_cleanup:
  assumes "formatRow gh rd now r = Inr d"
  shows "(row_name r = None \<longrightarrow> user_name (user d) = []) \<and>
         (row_name r = Some ''Jane Doe (Hitchwiki)'' \<longrightarrow> user_name (user d) = ''Jane Doe'') \<and>
         (\<forall>s. row_name r = Some s \<longrightarrow> (\<forall>j. \<not> occursAt s hitchwikiTag j) \<longrightarrow>
              user_name (user d) = trim s) \<and>
         (\<forall>pre post. row_name r = Some (pre @ hitchwikiTag @ post) \<longrightarrow>
              (\<forall>j<length pre. \<not> occursAt (pre @ hitchwikiTag @ post) hitchwikiTag j) \<longrightarrow>
              user_name (user d) = trim (pre @ post)) \<and>
         (\<forall>s. \<exists>a b. s = a @ trim s @ b \<and> list_all isWhiteSpace a \<and> list_all isWhiteSpace b \<and>
              (trim s = [] \<or>
               (\<not> isWhiteSpace (hd (trim s)) \<and> \<not> isWhiteSpace (last (trim s)))))"
proof -
  note u = formatRow_Inr(5)[OF assms]
  have c1: "user_name (user d) = []" if "row_name r = None"
    using u that by (simp add: replace_def hitchwikiTag_def trim_def trimStart_def trimEnd_def)
  have c2: "user_name (user d) = ''Jane Doe''" if "row_name r = Some ''Jane Doe (Hitchwiki)''"
    using u that
    by (simp add: trim_def trimStart_def trimEnd_def replace_def hitchwikiTag_def
        startsWith_def isWhiteSpace_def)
  have c3: "user_name (user d) = trim s"
    if "row_name r = Some s" "\<forall>j. \<not> occursAt s hitchwikiTag j" for s
    using u that replace_absent[of s hitchwikiTag "[]"] by simp
  have c4: "user_name (user d) = trim (pre @ post)"
    if n: "row_name r = Some (pre @ hitchwikiTag @ post)"
      and f: "\<forall>j<length pre. \<not> occursAt (pre @ hitchwikiTag @ post) hitchwikiTag j"
    for pre post
  proof -
    from replace_at[OF occursAt_append f, of "[]"]
    have "replace (pre @ hitchwikiTag @ post) hitchwikiTag [] = pre @ post" by simp
    with u n show ?thesis by simp
  qed
  from c1 c2 c3 c4 trim_surrounding show ?thesis by blast
qed

theorem name_cleanup_witness:
  "formatRow (\<lambda>la lo. ''s60'') (dateInZone 0) \<lparr>seconds = 1700000000, nanoseconds = 0\<rparr> janeRow =
     Inr (namedDoc ''Jane Doe'') \<and>
   row_name janeRow = Some (''Jane Doe '' @ hitchwikiTag @ []) \<and>
   user_name (user (namedDoc ''Jane Doe'')) = ''Jane Doe'' \<and>
   ''Jane Doe'' = trim (''Jane Doe '' @ []) \<and>
   formatRow (\<lambda>la lo. ''s60'') (dateInZone 0) \<lparr>seconds = 1700000000, nanoseconds = 0\<rparr>
       (janeRow\<lparr>row_name := None\<rparr>) = Inr (namedDoc []) \<and>
   user_name (user (namedDoc [])) = [] \<and>
   formatRow (\<lambda>la lo. ''s60'') (dateInZone 0) \<lparr>seconds = 1700000000, nanoseconds = 0\<rparr>
       (janeRow\<lparr>row_name := Some ''  Bob ''\<rparr>) = Inr (namedDoc ''Bob'') \<and>
   user_name (user (namedDoc ''Bob'')) = trim ''  Bob ''"
proof -
  let ?gh = "\<lambda>la lo :: real. ''s60''"
  let ?now = "\<lparr>seconds = 1700000000, nanoseconds = 0\<rparr>"
  have f1: "formatRow ?gh (dateInZone 0) ?now janeRow = Inr (namedDoc ''Jane Doe'')"
    by (simp add: formatRow_def GeoPoint_def janeRow_def read_in_UTC fromDate_def namedDoc_def
        docAt_def
        trim_def trimStart_def trimEnd_def replace_def hitchwikiTag_def
        startsWith_def isWhiteSpace_def)
  have n1: "row_name janeRow = Some ''Jane Doe (Hitchwiki)''"
    and n1': "row_name janeRow = Some (''Jane Doe '' @ hitchwikiTag @ [])"
    by (simp_all add: janeRow_def hitchwikiTag_def)
  have first1: "\<forall>j<length ''Jane Doe ''.
                  \<not> occursAt (''Jane Doe '' @ hitchwikiTag @ []) hitchwikiTag j"
    by (simp add: occursAt_def startsWith_def hitchwikiTag_def All_less_Suc numeral_eq_Suc)
  have f2: "formatRow ?gh (dateInZone 0) ?now (janeRow\<lparr>row_name := None\<rparr>) = Inr (namedDoc [])"
    by (simp add: formatRow_def GeoPoint_def janeRow_def read_in_UTC fromDate_def namedDoc_def
        docAt_def
        trim_def trimStart_def trimEnd_def replace_def hitchwikiTag_def)
  have f3: "formatRow ?gh (dateInZone 0) ?now (janeRow\<lparr>row_name := Some ''  Bob ''\<rparr>) =
            Inr (namedDoc ''Bob'')"
    by (simp add: formatRow_def GeoPoint_def janeRow_def read_in_UTC fromDate_def namedDoc_def
        docAt_def
        trim_def trimStart_def trimEnd_def replace_def hitchwikiTag_def
        startsWith_def isWhiteSpace_def)
  have absent: "\<forall>j. \<not> occursAt ''  Bob '' hitchwikiTag j"
  proof (intro allI notI)
    fix j assume "occursAt ''  Bob '' hitchwikiTag j"
    then have "take 11 (drop j ''  Bob '') = hitchwikiTag"
      by (simp add: occursAt_def startsWith_def tag_facts)
    then have "length (take 11 (drop j ''  Bob '')) = 11" by (simp add: tag_facts)
    then show False by simp
  qed
  from name_cleanup[OF f1] n1 n1' first1
  have r1: "user_name (user (namedDoc ''Jane Doe'')) = ''Jane Doe''"
    "user_name (user (namedDoc ''Jane Doe'')) = trim (''Jane Doe '' @ [])"
    by blast+
  from name_cleanup[OF f2] have r2: "user_name (user (namedDoc [])) = []" by simp
  from name_cleanup[OF f3] absent
  have r3: "user_name (user (namedDoc ''Bob'')) = trim ''  Bob ''" by simp
  from f1 n1' r1 f2 r2 f3 r3 show ?thesis by simp
qed

text \<open>
  C10. Only the first occurrence of the tag is taken out. When the tag first occurs in
  the name at \<open>i\<close> and occurs again at a later position \<open>j\<close>, the two do not overlap,
  and the name of the user is: the text before \<open>j\<close> without the first occurrence,
  trimmed at its start; the tag; the text after the later occurrence, trimmed at its end.
\<close>

theorem later_occurrences_remain:
  assumes f: "formatRow gh rd now r = Inr d"
      and n: "row_name r = Some s"
      and oi: "occursAt s hitchwikiTag i"
      and first: "\<forall>k<i. \<not> occursAt s hitchwikiTag k"
      and ij: "i < j"
      and oj: "occursAt s hitchwikiTag j"
  shows "i + 11 \<le> j \<and>
         user_name (user d) =
           trimStart (take i s @ take (j - (i + 11)) (drop (i + 11) s)) @ hitchwikiTag @
           trimEnd (drop (j + 11) s)"
proof -
  from tag_no_overlap[OF oi oj ij] have far: "i + 11 \<le> j" .
  let ?u = "take (j - (i + 11)) (drop (i + 11) s)"
  let ?v = "drop (j + 11) s"
  have tj: "take 11 (drop j s) = hitchwikiTag"
    using oj by (simp add: occursAt_def startsWith_def tag_facts)
  have "drop (i + 11) s = ?u @ drop (j - (i + 11)) (drop (i + 11) s)"
    by (simp only: append_take_drop_id)
  also have "drop (j - (i + 11)) (drop (i + 11) s) = drop j s" using far by simp
  also have "drop j s = take 11 (drop j s) @ drop 11 (drop j s)"
    by (simp only: append_take_drop_id)
  also have "\<dots> = hitchwikiTag @ ?v" using tj by (simp add: add.commute)
  finally have rest: "drop (i + 11) s = ?u @ hitchwikiTag @ ?v" .
  from replace_at[OF oi first, of "[]"]
  have "replace s hitchwikiTag [] = take i s @ drop (i + 11) s" by (simp add: tag_facts)
  also from rest have "take i s @ drop (i + 11) s = take i s @ (?u @ hitchwikiTag @ ?v)"
    by (rule arg_cong)
  also have "\<dots> = (take i s @ ?u) @ hitchwikiTag @ ?v" by (simp only: append_assoc)
  finally have "replace s hitchwikiTag [] = (take i s @ ?u) @ hitchwikiTag @ ?v" .
  then have "trim (replace s hitchwikiTag []) =
             trimStart (take i s @ ?u) @ hitchwikiTag @ trimEnd ?v"
    by (simp only: trim_keep[OF tag_facts(1,2,3)])
  with formatRow_Inr(5)[OF f] n far show ?thesis by simp
qed

theorem later_occurrences_remain_witness:
  "occursAt twiceTagged hitchwikiTag 3 \<and> occursAt twiceTagged hitchwikiTag 17 \<and>
   formatRow (\<lambda>la lo. ''s60'') (dateInZone 0) \<lparr>seconds = 1700000000, nanoseconds = 0\<rparr>
       (janeRow\<lparr>row_name := Some twiceTagged\<rparr>) =
     Inr (namedDoc ''A  B (Hitchwiki)'') \<and>
   ''A  B (Hitchwiki)'' =
     trimStart (take 3 twiceTagged @ take (17 - (3 + 11)) (drop (3 + 11) twiceTagged)) @
     hitchwikiTag @ trimEnd (drop (17 + 11) twiceTagged)"
proof -
  let ?d = "namedDoc ''A  B (Hitchwiki)''"
  have f: "formatRow (\<lambda>la lo. ''s60'') (dateInZone 0) \<lparr>seconds = 1700000000, nanoseconds = 0\<rparr>
       (janeRow\<lparr>row_name := Some twiceTagged\<rparr>) = Inr ?d"
    by (simp add: formatRow_def GeoPoint_def janeRow_def read_in_UTC fromDate_def namedDoc_def
        docAt_def
        twiceTagged_def
        trim_def trimStart_def trimEnd_def replace_def hitchwikiTag_def
        startsWith_def isWhiteSpace_def)
  have n: "row_name (janeRow\<lparr>row_name := Some twiceTagged\<rparr>) = Some twiceTagged" by simp
  have o3: "occursAt twiceTagged hitchwikiTag 3" and o17: "occursAt twiceTagged hitchwikiTag 17"
    by (simp_all add: occursAt_def startsWith_def twiceTagged_def hitchwikiTag_def)
  have fst: "\<forall>k<3. \<not> occursAt twiceTagged hitchwikiTag k"
    by (simp add: occursAt_def startsWith_def twiceTagged_def hitchwikiTag_def
        All_less_Suc numeral_3_eq_3)
  have u: "user_name (user ?d) = ''A  B (Hitchwiki)''" by (simp add: namedDoc_def)
  from later_occurrences_remain[OF f n o3 fst _ o17] u o3 o17 f show ?thesis by simp
qed

subsection \<open>Ratings and the exit code\<close>

lemma built_in_pass:
  assumes "getSrcRows (Points ps) c = Inr rows"
      and "formatRows gh rd clk 0 rows = Inr ds"
      and "d \<in> set ds"
  shows "\<exists>q j. q \<in> set ps \<and> ingestible c q \<and> formatRow gh rd (clk j) (selectColumns q) = Inr d"
proof -
  from formatRows_from[OF assms(2,3)] obtain r j where
    r: "r \<in> set rows" "formatRow gh rd (clk j) r = Inr d" by blast
  from r(1) getSrcRows_mem[OF assms(1), of r] obtain q where
    "q \<in> set ps" "ingestible c q" "r = selectColumns q" by blast
  with r(2) show ?thesis by blast
qed

text \<open>
  C6. A row with rating 3, 4 or 5 is built into a document with that rating less 2,
  which is 1, 2 or 3. With the source ratings at most 5, as the data model has them,
  every document a pass adds to the collection has a rating of 1, 2 or 3.
\<close>

theorem rating_rescale:
  "(formatRow gh rd now r = Inr d \<longrightarrow> row_rating r \<in> {3, 4, 5} \<longrightarrow>
      rating d = row_rating r - 2 \<and> rating d \<in> {1, 2, 3}) \<and>
   (srcDb w = Points ps \<longrightarrow> (\<forall>p\<in>set ps. row_rating p \<le> 5) \<longrightarrow>
      (\<forall>(k, e) \<in> set (stored (ingest w)) - set (docs (dstDb w)). rating e \<in> {1, 2, 3}))"
proof -
  have one: "rating d = row_rating r - 2 \<and> rating d \<in> {1, 2, 3}"
    if "formatRow gh rd now r = Inr d" "row_rating r \<in> {3, 4, 5}"
    using formatRow_Inr(1)[OF that(1)] that(2) by auto
  have two: "\<forall>(k, e) \<in> set (stored (ingest w)) - set (docs (dstDb w)). rating e \<in> {1, 2, 3}"
    if src: "srcDb w = Points ps" and top: "\<forall>p\<in>set ps. row_rating p \<le> 5"
  proof -
    from ingest_cases[of w]
    consider (same) "stored (ingest w) = docs (dstDb w)"
      | (ran) l rows ds where
          "getSrcRows (srcDb w) (cutoffOf l) = Inr rows"
          "formatRows (geohashForLocation w) (readDate w) (clock w) 0 rows = Inr ds"
          "stored (ingest w) = written (insertRows (dstDb w) ds)"
      by blast
    then show ?thesis
    proof cases
      case same
      then show ?thesis by simp
    next
      case ran
      have "rating e \<in> {1, 2, 3}" if "e \<in> set ds" for e
      proof -
        from built_in_pass[OF ran(1)[unfolded src] ran(2) that] obtain q j where
          q: "q \<in> set ps" "ingestible (cutoffOf l) q"
             "formatRow (geohashForLocation w) (readDate w) (clock w j) (selectColumns q) = Inr e"
          by blast
        from q(2) have "2 < row_rating q" by (simp add: ingestible_def)
        moreover from q(1) top have "row_rating q \<le> 5" by blast
        ultimately show ?thesis
          using formatRow_Inr(1)[OF q(3)] by (auto simp: selectColumns_fields)
      qed
      then show ?thesis
        using insertRows_subset[of "dstDb w" ds] unfolding ran(3) by auto
    qed
  qed
  from one two show ?thesis by blast
qed

theorem rating_rescale_witness:
  "(''hitchwiki-43'', built ! 2) \<in> set (stored (ingest world1)) - set (docs (dstDb world1)) \<and>
   rating (built ! 2) = 3 \<and> rating (built ! 2) \<in> {1, 2, 3} \<and>
   formatRow (\<lambda>la lo. ''s60'') (dateInZone 0) \<lparr>seconds = 1700000001, nanoseconds = 0\<rparr>
     (selectColumns (pointAt ''42'' 4 ''2020-09-13 12:26:41.250'')) = Inr (built ! 1) \<and>
   rating (built ! 1) = row_rating (selectColumns (pointAt ''42'' 4 ''2020-09-13 12:26:41.250'')) - 2"
proof -
  let ?r = "selectColumns (pointAt ''42'' 4 ''2020-09-13 12:26:41.250'')"
  have f: "formatRow (\<lambda>la lo. ''s60'') (dateInZone 0) \<lparr>seconds = 1700000001, nanoseconds = 0\<rparr> ?r =
           Inr (built ! 1)"
    by (simp add: formatRow_def GeoPoint_def selectColumns_def pointAt_def
      cleaned_X read_in_UTC fromDate_def built_def docAt_def)
  have g: "row_rating ?r \<in> {3, 4, 5}" by (simp add: selectColumns_def pointAt_def)
  have src: "srcDb world1 = Points exampleDump" by (simp add: world1_def)
  have top: "\<forall>p\<in>set exampleDump. row_rating p \<le> 5"
    by (simp add: exampleDump_def pointAt_def)
  have mem: "(''hitchwiki-43'', built ! 2) \<in>
             set (stored (ingest world1)) - set (docs (dstDb world1))"
    by (simp add: world1_stored storeAfter_def) 
       (simp add: world1_def storeBefore_def built_def docAt_def doc41_def)
  have three: "rating (built ! 2) = 3" by (simp add: built_def docAt_def)
  from rating_rescale[of "\<lambda>la lo. ''s60''" "dateInZone 0"
      "\<lparr>seconds = 1700000001, nanoseconds = 0\<rparr>" ?r
      "built ! 1" world1 exampleDump] f g src top mem three
  show ?thesis by auto
qed

lemma getLastIngestedRow_same:
  "docs db = docs db' \<Longrightarrow> queryRejected db = queryRejected db' \<Longrightarrow>
   getLastIngestedRow db = getLastIngestedRow db'"
  by (simp add: getLastIngestedRow_def)

lemma world3_last: "getLastIngestedRow (dstDb world3) = Inr (Some doc41)"
  using world1_last getLastIngestedRow_same[of "dstDb world3" "dstDb world1"]
  by (simp add: world3_def)

text \<open>
  C8. The claim: the exit code is non-zero on any stage failure, a failed upsert among
  them. In the example world with the second write rejected, the first document is
  stored, the second and third are not, the error is printed, the promise is fulfilled
  and the exit code is 0.
\<close>

theorem failed_upsert_exits_zero:
  "thrown (insertRows (dstDb world3) built) = Some WriteError \<and>
   stored (ingest world3) = [(''hitchwiki-41'', built ! 0), (''app-1'', appDoc)] \<and>
   last (console (ingest world3)) = Failed WriteError \<and>
   settled (ingest world3) = None \<and>
   exitCode (ingest world3) = 0"
proof -
  have d: "\<not> downloadFails world3" by (simp add: world3_def world1_def)
  note l = world3_last
  have s: "getSrcRows (srcDb world3) (cutoffOf (Some doc41)) =
     Inr (map selectColumns
            [pointAt ''41'' 3 ''2020-09-13 12:26:40.500'', pointAt ''42'' 4 ''2020-09-13 12:26:41.250'',
             pointAt ''43'' 5 ''2020-09-13 12:26:42.750''])"
    using world1_selected by (simp add: world3_def world1_cutoff)
  have b: "formatRows (geohashForLocation world3) (readDate world3) (clock world3) 0
     (map selectColumns
        [pointAt ''41'' 3 ''2020-09-13 12:26:40.500'', pointAt ''42'' 4 ''2020-09-13 12:26:41.250'',
         pointAt ''43'' 5 ''2020-09-13 12:26:42.750'']) = Inr built"
    using world1_built by (simp add: world3_def)
  have w: "written (insertRows (dstDb world3) built) =
             [(''hitchwiki-41'', built ! 0), (''app-1'', appDoc)]"
    and t: "thrown (insertRows (dstDb world3) built) = Some WriteError"
    by (simp_all add: insertRows_def world3_def world1_def built_def storeBefore_def
      doc41_def docAt_def docKey_def setDoc_def Let_def MAX_WRITES_def)
  note r = ingest_reaches_writer[OF d l s b]
  from r(3) t have c: "last (console (ingest world3)) = Failed WriteError" by simp
  from r(1,2) w t c show ?thesis by (simp add: exitCode_def)
qed

text \<open>
  C8, amended. The exit code is 0 exactly when the download, the watermark read, the
  selection and the transform succeed: on a pass that writes everything, on an empty
  pass, and also on a pass whose write fails. A failed upsert ends the loop: the
  documents before it are stored, no later one is, the error is printed after
  \<^verbatim>\<open>Failed:\<close> and the exit code is 0. When one of the four stages before the writer
  fails, the promise is rejected, the exit code is 1 and the collection is untouched.
\<close>

theorem exit_code_of_pass:
  "(exitCode (ingest w) = 0 \<longleftrightarrow>
      (\<exists>l rows ds. \<not> downloadFails w \<and>
         getLastIngestedRow (dstDb w) = Inr l \<and>
         getSrcRows (srcDb w) (cutoffOf l) = Inr rows \<and>
         formatRows (geohashForLocation w) (readDate w) (clock w) 0 rows = Inr ds)) \<and>
   (exitCode (ingest w) \<noteq> 0 \<longrightarrow>
      exitCode (ingest w) = 1 \<and> settled (ingest w) \<noteq> None \<and>
      stored (ingest w) = docs (dstDb w)) \<and>
   (\<forall>l rows ds. \<not> downloadFails w \<longrightarrow>
      getLastIngestedRow (dstDb w) = Inr l \<longrightarrow>
      getSrcRows (srcDb w) (cutoffOf l) = Inr rows \<longrightarrow>
      formatRows (geohashForLocation w) (readDate w) (clock w) 0 rows = Inr ds \<longrightarrow>
      (\<forall>i<length ds. \<not> setDocRejected (dstDb w) i (ds ! i)) \<longrightarrow>
      exitCode (ingest w) = 0 \<and>
      last (console (ingest w)) = CompletedWithoutError \<and>
      stored (ingest w) = foldl (\<lambda>c row. setDoc c (docKey row) row) (docs (dstDb w)) ds) \<and>
   (\<forall>l rows pre bad post. \<not> downloadFails w \<longrightarrow>
      getLastIngestedRow (dstDb w) = Inr l \<longrightarrow>
      getSrcRows (srcDb w) (cutoffOf l) = Inr rows \<longrightarrow>
      formatRows (geohashForLocation w) (readDate w) (clock w) 0 rows = Inr (pre @ bad # post) \<longrightarrow>
      (\<forall>i<length pre. \<not> setDocRejected (dstDb w) i (pre ! i)) \<longrightarrow>
      setDocRejected (dstDb w) (length pre) bad \<longrightarrow>
      exitCode (ingest w) = 0 \<and>
      last (console (ingest w)) = Failed WriteError \<and>
      stored (ingest w) = foldl (\<lambda>c row. setDoc c (docKey row) row) (docs (dstDb w)) pre)"
proof -
  have zero: "exitCode (ingest w) = 0 \<longleftrightarrow>
      (\<exists>l rows ds. \<not> downloadFails w \<and>
         getLastIngestedRow (dstDb w) = Inr l \<and>
         getSrcRows (srcDb w) (cutoffOf l) = Inr rows \<and>
         formatRows (geohashForLocation w) (readDate w) (clock w) 0 rows = Inr ds)"
    by (auto simp: exitCode_def ingest_def Let_def split: sum.splits)
  have nonzero: "exitCode (ingest w) = 1 \<and> settled (ingest w) \<noteq> None \<and>
      stored (ingest w) = docs (dstDb w)" if "exitCode (ingest w) \<noteq> 0"
    using that ingest_cases[of w] by (auto simp: exitCode_def split: option.splits)
  have complete: "exitCode (ingest w) = 0 \<and>
      last (console (ingest w)) = CompletedWithoutError \<and>
      stored (ingest w) = foldl (\<lambda>c row. setDoc c (docKey row) row) (docs (dstDb w)) ds"
    if h: "\<not> downloadFails w" "getLastIngestedRow (dstDb w) = Inr l"
      "getSrcRows (srcDb w) (cutoffOf l) = Inr rows"
      "formatRows (geohashForLocation w) (readDate w) (clock w) 0 rows = Inr ds"
      and acc: "\<forall>i<length ds. \<not> setDocRejected (dstDb w) i (ds ! i)"
    for l rows ds
  proof -
    note r = ingest_reaches_writer[OF h]
    note a = insertRows_accepting[OF acc]
    from r(3) a have "last (console (ingest w)) = CompletedWithoutError" by simp
    with r(1,2) a show ?thesis by (simp add: exitCode_def)
  qed
  have failed: "exitCode (ingest w) = 0 \<and>
      last (console (ingest w)) = Failed WriteError \<and>
      stored (ingest w) = foldl (\<lambda>c row. setDoc c (docKey row) row) (docs (dstDb w)) pre"
    if h: "\<not> downloadFails w" "getLastIngestedRow (dstDb w) = Inr l"
      "getSrcRows (srcDb w) (cutoffOf l) = Inr rows"
      "formatRows (geohashForLocation w) (readDate w) (clock w) 0 rows = Inr (pre @ bad # post)"
      and acc: "\<forall>i<length pre. \<not> setDocRejected (dstDb w) i (pre ! i)"
      and rej: "setDocRejected (dstDb w) (length pre) bad"
    for l rows pre bad post
  proof -
    note r = ingest_reaches_writer[OF h]
    note a = insertRows_rejecting[OF acc rej, of post]
    from r(3) a have "last (console (ingest w)) = Failed WriteError" by simp
    with r(1,2) a show ?thesis by (simp add: exitCode_def)
  qed
  from zero nonzero complete failed show ?thesis by blast
qed

theorem exit_code_of_pass_witness:
  "exitCode (ingest world1) = 0 \<and>
   last (console (ingest world1)) = CompletedWithoutError \<and>
   exitCode (ingest world3) = 0 \<and>
   last (console (ingest world3)) = Failed WriteError \<and>
   stored (ingest world3) = [(''hitchwiki-41'', built ! 0), (''app-1'', appDoc)] \<and>
   exitCode (ingest world4) = 1 \<and>
   stored (ingest world4) = docs (dstDb world4)"
proof -
  let ?rows = "map selectColumns
        [pointAt ''41'' 3 ''2020-09-13 12:26:40.500'', pointAt ''42'' 4 ''2020-09-13 12:26:41.250'',
         pointAt ''43'' 5 ''2020-09-13 12:26:42.750'']"
  have d1: "\<not> downloadFails world1" by (simp add: world1_def)
  have s1: "getSrcRows (srcDb world1) (cutoffOf (Some doc41)) = Inr ?rows"
    using world1_selected by (simp add: world1_cutoff)
  have a1: "\<forall>i<length built. \<not> setDocRejected (dstDb world1) i (built ! i)"
    by (simp add: world1_def)
  from exit_code_of_pass[of world1] d1 world1_last s1 world1_built a1
  have r1: "exitCode (ingest world1) = 0 \<and>
            last (console (ingest world1)) = CompletedWithoutError"
    by blast
  have d3: "\<not> downloadFails world3" by (simp add: world3_def world1_def)
  note l3 = world3_last
  have s3: "getSrcRows (srcDb world3) (cutoffOf (Some doc41)) = Inr ?rows"
    using world1_selected by (simp add: world3_def world1_cutoff)
  have b3: "formatRows (geohashForLocation world3) (readDate world3) (clock world3) 0 ?rows =
            Inr ([built ! 0] @ (built ! 1) # [built ! 2])"
    using world1_built by (simp add: world3_def built_def)
  have a3: "\<forall>i<length [built ! 0]. \<not> setDocRejected (dstDb world3) i ([built ! 0] ! i)"
    by (simp add: world3_def)
  have j3: "setDocRejected (dstDb world3) (length [built ! 0]) (built ! 1)"
    by (simp add: world3_def)
  from exit_code_of_pass[of world3] d3 l3 s3 b3 a3 j3
  have "exitCode (ingest world3) = 0 \<and>
        last (console (ingest world3)) = Failed WriteError \<and>
        stored (ingest world3) =
          foldl (\<lambda>c row. setDoc c (docKey row) row) (docs (dstDb world3)) [built ! 0]"
    by blast
  moreover have "foldl (\<lambda>c row. setDoc c (docKey row) row) (docs (dstDb world3)) [built ! 0] =
                 [(''hitchwiki-41'', built ! 0), (''app-1'', appDoc)]"
    by (simp add: world3_def world1_def storeBefore_def built_def docAt_def docKey_def
        setDoc_def)
  ultimately have r3: "exitCode (ingest world3) = 0 \<and>
        last (console (ingest world3)) = Failed WriteError \<and>
        stored (ingest world3) = [(''hitchwiki-41'', built ! 0), (''app-1'', appDoc)]"
    by simp
  have "exitCode (ingest world4) \<noteq> 0"
    using exit_code_of_pass[of world4] by (simp add: world4_def)
  with exit_code_of_pass[of world4]
  have r4: "exitCode (ingest world4) = 1 \<and> stored (ingest world4) = docs (dstDb world4)"
    by blast
  from r1 r3 r4 show ?thesis by blast
qed

subsection \<open>Selection by text\<close>

lemma text_before_its_extension: "sfx \<noteq> [] \<Longrightarrow> (t :: string) < t @ sfx"
proof (induction t)
  case Nil
  then show ?case by (cases sfx) simp_all
next
  case (Cons c t)
  then show ?case by simp
qed

text \<open>
  C3. The claim: a row whose creation time equals the cutoff is excluded. The row
  created at 12:26:40.000, which read in UTC is the instant of the cutoff 1600000000, is
  returned: its text is longer than the text of the cutoff and so comes after it.
\<close>

theorem row_at_cutoff_is_selected:
  "dateInZone 0 (datetime edgePoint) = 1600000000 * 1000 \<and>
   DATETIME_unixepoch 1600000000 = Some ''2020-09-13 12:26:40'' \<and>
   datetime edgePoint = ''2020-09-13 12:26:40.000'' \<and>
   getSrcRows (Points [edgePoint]) 1600000000 = Inr [selectColumns edgePoint]"
proof -
  have r: "dateInZone 0 (datetime edgePoint) = 1600000000 * 1000"
    by (simp add: edgePoint_def pointAt_def dateInZone_def days_from_civil_def digits_def Let_def)
  have t: "datetime edgePoint = ''2020-09-13 12:26:40.000''"
    by (simp add: edgePoint_def pointAt_def)
  have "ingestible 1600000000 edgePoint"
    by (simp add: ingestible_def DATETIME_values edgePoint_def pointAt_def less_char_def)
  then have g: "getSrcRows (Points [edgePoint]) 1600000000 = Inr [selectColumns edgePoint]"
    by (simp add: getSrcRows_def)
  from r DATETIME_values(3) t g show ?thesis by (intro conjI)
qed

text \<open>
  C3, amended. For every cutoff not before the year 0 (the seconds of every Firestore
  timestamp, and 0), \<^verbatim>\<open>getSrcRows\<close> on a readable dump returns exactly the rows (with their multiplicity, each with its six selected columns) that are not
  banned, are reviewed, have a rating above 2 and whose \<^verbatim>\<open>datetime\<close> text comes
  strictly after the text SQLite writes for the cutoff, in the order of texts; the rows
  come in ascending order of that text. A row whose text is the text of the cutoff is
  not returned; an eligible row whose text continues the text of the cutoff, as one
  written with a fraction does, is returned. The text of a cutoff up to the year 9999
  has 19 characters; after that year SQLite has no text for the cutoff and no row is
  returned.
\<close>

theorem getSrcRows_selects_by_text:
  assumes "-62167219200 \<le> cutoff"
  shows "\<exists>rows. getSrcRows (Points ps) cutoff = Inr rows \<and>
     mset rows =
       image_mset
         (\<lambda>p. \<lparr>row_id = row_id p, lat = lat p, lon = lon p, row_rating = row_rating p,
                row_name = row_name p, datetime = datetime p\<rparr>)
         (filter_mset (\<lambda>p. banned p = 0 \<and> reviewed p = 1 \<and> 2 < row_rating p \<and>
                           (\<exists>t. DATETIME_unixepoch cutoff = Some t \<and> t < datetime p))
            (mset ps)) \<and>
     sorted (map datetime rows) \<and>
     (\<forall>r\<in>set rows. DATETIME_unixepoch cutoff \<noteq> Some (datetime r)) \<and>
     (\<forall>p\<in>set ps. \<forall>t sfx. DATETIME_unixepoch cutoff = Some t \<longrightarrow>
        datetime p = t @ sfx \<longrightarrow> sfx \<noteq> [] \<longrightarrow>
        banned p = 0 \<longrightarrow> reviewed p = 1 \<longrightarrow> 2 < row_rating p \<longrightarrow>
        \<lparr>row_id = row_id p, lat = lat p, lon = lon p, row_rating = row_rating p,
         row_name = row_name p, datetime = datetime p\<rparr> \<in> set rows) \<and>
     (cutoff \<le> 253402300799 \<longrightarrow>
        (\<exists>t. DATETIME_unixepoch cutoff = Some t \<and> length t = 19)) \<and>
     (253402300799 < cutoff \<longrightarrow> DATETIME_unixepoch cutoff = None \<and> rows = [])"
proof -
  let ?sel = "sort_key datetime (filter (ingestible cutoff) ps)"
  let ?rows = "map selectColumns ?sel"
  let ?cols = "\<lambda>p :: point. \<lparr>row_id = row_id p, lat = lat p, lon = lon p,
                 row_rating = row_rating p, row_name = row_name p, datetime = datetime p\<rparr>"
  let ?P = "\<lambda>p :: point. banned p = 0 \<and> reviewed p = 1 \<and> 2 < row_rating p \<and>
                           (\<exists>t. DATETIME_unixepoch cutoff = Some t \<and> t < datetime p)"
  have e: "getSrcRows (Points ps) cutoff = Inr ?rows" by (simp add: getSrcRows_def)
  have c: "selectColumns = ?cols" by (rule ext) (simp add: selectColumns_def)
  have p: "ingestible cutoff = ?P"
    by (rule ext) (auto simp: ingestible_def split: option.splits)
  have m: "mset ?rows = image_mset selectColumns (filter_mset (ingestible cutoff) (mset ps))"
    by simp
  have "map datetime ?rows = map datetime ?sel"
    by (simp add: selectColumns_fields)
  then have s: "sorted (map datetime ?rows)" by (simp only: sorted_sort_key)
  have b: "DATETIME_unixepoch cutoff \<noteq> Some (datetime r)" if "r \<in> set ?rows" for r
  proof
    assume eq: "DATETIME_unixepoch cutoff = Some (datetime r)"
    from that obtain q where q: "ingestible cutoff q" "r = selectColumns q" by auto
    from q(2) have "datetime r = datetime q" by (simp add: selectColumns_fields)
    with q(1) eq show False by (simp add: ingestible_def)
  qed
  have i: "selectColumns q \<in> set ?rows"
    if "q \<in> set ps" "DATETIME_unixepoch cutoff = Some t" "datetime q = t @ sfx" "sfx \<noteq> []"
      "banned q = 0" "reviewed q = 1" "2 < row_rating q"
    for q t sfx
  proof -
    from that(3,4) have "t < datetime q" by (simp add: text_before_its_extension)
    with that have "ingestible cutoff q" by (simp add: ingestible_def)
    with that(1) show ?thesis by simp
  qed
  have n: "DATETIME_unixepoch cutoff = None \<and> ?rows = []" if "253402300799 < cutoff"
    using that by (simp add: ingestible_def DATETIME_unixepoch_def)
  have w: "\<exists>t. DATETIME_unixepoch cutoff = Some t \<and> length t = 19" if "cutoff \<le> 253402300799"
    using that assms
    by (simp add: DATETIME_unixepoch_def pad2_def pad4_def split: prod.splits)
  have G: "\<exists>rows. getSrcRows (Points ps) cutoff = Inr rows \<and>
     mset rows = image_mset selectColumns (filter_mset (ingestible cutoff) (mset ps)) \<and>
     sorted (map datetime rows) \<and>
     (\<forall>r\<in>set rows. DATETIME_unixepoch cutoff \<noteq> Some (datetime r)) \<and>
     (\<forall>p\<in>set ps. \<forall>t sfx. DATETIME_unixepoch cutoff = Some t \<longrightarrow>
        datetime p = t @ sfx \<longrightarrow> sfx \<noteq> [] \<longrightarrow>
        banned p = 0 \<longrightarrow> reviewed p = 1 \<longrightarrow> 2 < row_rating p \<longrightarrow>
        selectColumns p \<in> set rows) \<and>
     (cutoff \<le> 253402300799 \<longrightarrow>
        (\<exists>t. DATETIME_unixepoch cutoff = Some t \<and> length t = 19)) \<and>
     (253402300799 < cutoff \<longrightarrow> DATETIME_unixepoch cutoff = None \<and> rows = [])"
  proof (rule exI[of _ ?rows], intro conjI)
    show "getSrcRows (Points ps) cutoff = Inr ?rows" by (rule e)
    show "mset ?rows = image_mset selectColumns (filter_mset (ingestible cutoff) (mset ps))"
      by (rule m)
    show "sorted (map datetime ?rows)" by (rule s)
    show "\<forall>r\<in>set ?rows. DATETIME_unixepoch cutoff \<noteq> Some (datetime r)"
      using b by blast
    show "\<forall>p\<in>set ps. \<forall>t sfx. DATETIME_unixepoch cutoff = Some t \<longrightarrow>
        datetime p = t @ sfx \<longrightarrow> sfx \<noteq> [] \<longrightarrow>
        banned p = 0 \<longrightarrow> reviewed p = 1 \<longrightarrow> 2 < row_rating p \<longrightarrow>
        selectColumns p \<in> set ?rows"
      using i by blast
    show "cutoff \<le> 253402300799 \<longrightarrow>
        (\<exists>t. DATETIME_unixepoch cutoff = Some t \<and> length t = 19)"
      using w by blast
    show "253402300799 < cutoff \<longrightarrow> DATETIME_unixepoch cutoff = None \<and> ?rows = []"
      using n by blast
  qed
  from G show ?thesis unfolding p c .
qed

theorem getSrcRows_selects_by_text_witness:
  "DATETIME_unixepoch 1600000000 = Some ''2020-09-13 12:26:40'' \<and>
   getSrcRows (Points exampleDump) 1600000000 =
     Inr (map selectColumns
            [pointAt ''41'' 3 ''2020-09-13 12:26:40.500'',
             pointAt ''42'' 4 ''2020-09-13 12:26:41.250'',
             pointAt ''43'' 5 ''2020-09-13 12:26:42.750'']) \<and>
   sorted (map datetime (map selectColumns
            [pointAt ''41'' 3 ''2020-09-13 12:26:40.500'',
             pointAt ''42'' 4 ''2020-09-13 12:26:41.250'',
             pointAt ''43'' 5 ''2020-09-13 12:26:42.750''])) \<and>
   datetime (pointAt ''39'' 4 ''2020-09-13 12:26:40'') = ''2020-09-13 12:26:40'' \<and>
   selectColumns (pointAt ''39'' 4 ''2020-09-13 12:26:40'') \<notin>
     set (map selectColumns
            [pointAt ''41'' 3 ''2020-09-13 12:26:40.500'',
             pointAt ''42'' 4 ''2020-09-13 12:26:41.250'',
             pointAt ''43'' 5 ''2020-09-13 12:26:42.750'']) \<and>
   datetime (pointAt ''41'' 3 ''2020-09-13 12:26:40.500'') = ''2020-09-13 12:26:40'' @ ''.500'' \<and>
   selectColumns (pointAt ''41'' 3 ''2020-09-13 12:26:40.500'') \<in>
     set (map selectColumns
            [pointAt ''41'' 3 ''2020-09-13 12:26:40.500'',
             pointAt ''42'' 4 ''2020-09-13 12:26:41.250'',
             pointAt ''43'' 5 ''2020-09-13 12:26:42.750''])"
proof -
  let ?out = "map selectColumns
            [pointAt ''41'' 3 ''2020-09-13 12:26:40.500'',
             pointAt ''42'' 4 ''2020-09-13 12:26:41.250'',
             pointAt ''43'' 5 ''2020-09-13 12:26:42.750'']"
  have e: "getSrcRows (Points exampleDump) 1600000000 = Inr ?out"
    using world1_selected by (simp add: world1_def)
  have "-62167219200 \<le> (1600000000 :: int)" by simp
  from getSrcRows_selects_by_text[OF this, of exampleDump] e
  have srt: "sorted (map datetime ?out)"
    and edge: "\<forall>r\<in>set ?out. DATETIME_unixepoch 1600000000 \<noteq> Some (datetime r)"
    by auto
  have t39: "datetime (pointAt ''39'' 4 ''2020-09-13 12:26:40'') = ''2020-09-13 12:26:40''"
    and t41: "datetime (pointAt ''41'' 3 ''2020-09-13 12:26:40.500'') =
              ''2020-09-13 12:26:40'' @ ''.500''"
    by (simp_all add: pointAt_def)
  have "datetime (selectColumns (pointAt ''39'' 4 ''2020-09-13 12:26:40'')) =
        ''2020-09-13 12:26:40''"
    by (simp add: selectColumns_def pointAt_def)
  with edge DATETIME_values(3)
  have out39: "selectColumns (pointAt ''39'' 4 ''2020-09-13 12:26:40'') \<notin> set ?out"
    by metis
  have in41: "selectColumns (pointAt ''41'' 3 ''2020-09-13 12:26:40.500'') \<in> set ?out"
    by simp
  from DATETIME_values(3) e srt t39 out39 t41 in41 show ?thesis by (intro conjI)
qed

subsection \<open>The watermark from one pass to the next\<close>

lemma example_pass_stored:
  assumes "\<not> downloadFails w" and "dstDb w = dstDb world1"
      and "getSrcRows (srcDb w) 1600000000 = Inr rows"
      and "formatRows (geohashForLocation w) (readDate w) (clock w) 0 rows = Inr ds"
  shows "stored (ingest w) = written (insertRows (dstDb world1) ds)"
proof -
  have l: "getLastIngestedRow (dstDb w) = Inr (Some doc41)"
    using world1_last assms(2) by simp
  from ingest_reaches_writer(1)[OF assms(1) l, of rows ds] assms(2,3,4)
  show ?thesis by (simp add: world1_cutoff)
qed

lemma world2_last: "getLastIngestedRow (dstDb world2) = Inr (Some (built ! 2))"
proof -
  have "docs (dstDb world2) = storeAfter" "\<not> queryRejected (dstDb world2)"
    by (simp_all add: world2_def world1_stored) (simp add: world1_def)
  then show ?thesis
    by (simp add: getLastIngestedRow_def storeAfter_def built_def docAt_def appDoc_def
        tsKey_def)
qed

lemma read_in_Tokyo:
  "dateInZone 32400 ''2020-09-13 12:26:40.500'' = 1599967600500"
  "dateInZone 32400 ''2020-09-13 12:26:41.250'' = 1599967601250"
  "dateInZone 32400 ''2020-09-13 12:26:42.750'' = 1599967602750"
  by (simp_all add: dateInZone_def days_from_civil_def digits_def Let_def)

lemma worldTokyo_stored:
  "stored (ingest worldTokyo) =
     [(''hitchwiki-41'', builtTokyo ! 0), (''app-1'', appDoc),
      (''hitchwiki-42'', builtTokyo ! 1), (''hitchwiki-43'', builtTokyo ! 2)]"
proof -
  let ?rows = "map selectColumns
            [pointAt ''41'' 3 ''2020-09-13 12:26:40.500'',
             pointAt ''42'' 4 ''2020-09-13 12:26:41.250'',
             pointAt ''43'' 5 ''2020-09-13 12:26:42.750'']"
  have a: "\<not> downloadFails worldTokyo" "dstDb worldTokyo = dstDb world1"
    by (simp_all add: worldTokyo_def) (simp add: world1_def)
  have s: "getSrcRows (srcDb worldTokyo) 1600000000 = Inr ?rows"
    using world1_selected by (simp add: worldTokyo_def)
  have b: "formatRows (geohashForLocation worldTokyo) (readDate worldTokyo) (clock worldTokyo) 0
             ?rows = Inr builtTokyo"
    by (simp add: worldTokyo_def world1_def formatRow_def GeoPoint_def selectColumns_def
        pointAt_def cleaned_X read_in_Tokyo fromDate_def builtTokyo_def docAt_def)
  have w: "written (insertRows (dstDb world1) builtTokyo) =
     [(''hitchwiki-41'', builtTokyo ! 0), (''app-1'', appDoc),
      (''hitchwiki-42'', builtTokyo ! 1), (''hitchwiki-43'', builtTokyo ! 2)]"
    by (simp add: insertRows_def world1_def builtTokyo_def storeBefore_def
      doc41_def docAt_def docKey_def setDoc_def Let_def MAX_WRITES_def)
  from example_pass_stored[OF a s b] w show ?thesis by simp
qed

lemma worldTokyo2_last:
  "getLastIngestedRow (dstDb worldTokyo2) = Inr (Some (builtTokyo ! 2))"
proof -
  have "docs (dstDb worldTokyo2) =
     [(''hitchwiki-41'', builtTokyo ! 0), (''app-1'', appDoc),
      (''hitchwiki-42'', builtTokyo ! 1), (''hitchwiki-43'', builtTokyo ! 2)]"
    "\<not> queryRejected (dstDb worldTokyo2)"
    by (simp_all add: worldTokyo2_def worldTokyo_stored) (simp add: worldTokyo_def world1_def)
  then show ?thesis
    by (simp add: getLastIngestedRow_def builtTokyo_def docAt_def appDoc_def tsKey_def)
qed

lemma worldEdge_stored:
  "stored (ingest worldEdge) =
     [(''hitchwiki-41'', doc41), (''app-1'', appDoc), (''hitchwiki-44'', doc44)]"
proof -
  have a: "\<not> downloadFails worldEdge" "dstDb worldEdge = dstDb world1"
    by (simp_all add: worldEdge_def) (simp add: world1_def)
  have "ingestible 1600000000 edgePoint"
    by (simp add: ingestible_def DATETIME_values edgePoint_def pointAt_def less_char_def)
  then have s: "getSrcRows (srcDb worldEdge) 1600000000 = Inr [selectColumns edgePoint]"
    by (simp add: worldEdge_def getSrcRows_def)
  have r: "dateInZone 0 ''2020-09-13 12:26:40.000'' = 1600000000000"
    by (simp add: dateInZone_def days_from_civil_def digits_def Let_def)
  have b: "formatRows (geohashForLocation worldEdge) (readDate worldEdge) (clock worldEdge) 0
             [selectColumns edgePoint] = Inr [doc44]"
    by (simp add: worldEdge_def world1_def formatRow_def GeoPoint_def selectColumns_def
        edgePoint_def pointAt_def cleaned_X r fromDate_def doc44_def docAt_def)
  have w: "written (insertRows (dstDb world1) [doc44]) =
     [(''hitchwiki-41'', doc41), (''app-1'', appDoc), (''hitchwiki-44'', doc44)]"
    by (simp add: insertRows_def world1_def storeBefore_def doc44_def
      docAt_def docKey_def setDoc_def Let_def MAX_WRITES_def)
  from example_pass_stored[OF a s b] w show ?thesis by simp
qed

text \<open>
  C2. The claim: the watermark of the next pass is at least the cutoff of this one,
  because every record written was selected with a creation time strictly greater than
  the cutoff. In the example pass run nine hours east of UTC the cutoff is 1600000000;
  the three rows after the cutoff's text are read as local times, nine hours earlier as
  instants, and the document of row 41 is overwritten: the next pass resolves
  1599967602, below 1600000000. And in UTC, the row created at 12:26:40.000 is written
  with the submitted timestamp 1600000000 exactly, the cutoff, not after it.
\<close>

theorem watermark_falls_back:
  "getLastIngestedRow (dstDb worldTokyo) = Inr (Some doc41) \<and>
   cutoffOf (Some doc41) = 1600000000 \<and>
   docs (dstDb worldTokyo2) = stored (ingest worldTokyo) \<and>
   getLastIngestedRow (dstDb worldTokyo2) = Inr (Some (builtTokyo ! 2)) \<and>
   cutoffOf (Some (builtTokyo ! 2)) = 1599967602 \<and>
   cutoffOf (Some (builtTokyo ! 2)) < cutoffOf (Some doc41) \<and>
   getLastIngestedRow (dstDb worldEdge) = Inr (Some doc41) \<and>
   (''hitchwiki-44'', doc44) \<in> set (stored (ingest worldEdge)) - set (docs (dstDb worldEdge)) \<and>
   submittedTimestamp doc44 = fromDate (cutoffOf (Some doc41) * 1000)"
proof -
  have l: "getLastIngestedRow (dstDb worldTokyo) = Inr (Some doc41)"
    using world1_last by (simp add: worldTokyo_def)
  have d: "docs (dstDb worldTokyo2) = stored (ingest worldTokyo)"
    by (simp add: worldTokyo2_def)
  have c: "cutoffOf (Some (builtTokyo ! 2)) = 1599967602"
    by (simp add: cutoffOf_def builtTokyo_def docAt_def)
  have lt: "cutoffOf (Some (builtTokyo ! 2)) < cutoffOf (Some doc41)"
    by (simp add: c world1_cutoff)
  have le: "getLastIngestedRow (dstDb worldEdge) = Inr (Some doc41)"
    using world1_last by (simp add: worldEdge_def)
  have m: "(''hitchwiki-44'', doc44) \<in>
           set (stored (ingest worldEdge)) - set (docs (dstDb worldEdge))"
    by (simp add: worldEdge_stored) (simp add: worldEdge_def world1_def storeBefore_def)
  have t: "submittedTimestamp doc44 = fromDate (cutoffOf (Some doc41) * 1000)"
    by (simp add: world1_cutoff doc44_def docAt_def fromDate_def)
  from l world1_cutoff d worldTokyo2_last c lt le m t show ?thesis by (intro conjI)
qed

text \<open>
  C2, amended. Pass P1 runs in the world \<open>w1\<close> with a cutoff not before the year 0; pass
  P2 starts on the collection P1 left. Provided the runtime reads every row of the dump
  whose text SQLite places after the text of P1's cutoff as an instant not before that
  cutoff, the cutoff P2 resolves is at least the cutoff P1 used, and every document P1
  stored that was not there before has a submitted timestamp made from a creation time
  at or after P1's cutoff.
\<close>

theorem watermark_monotone_when_read_alike:
  assumes a1: "getLastIngestedRow (dstDb w1) = Inr l1"
      and a2: "docs (dstDb w2) = stored (ingest w1)"
      and a3: "getLastIngestedRow (dstDb w2) = Inr l2"
      and range: "-62167219200 \<le> cutoffOf l1"
      and alike: "\<forall>ps t. srcDb w1 = Points ps \<longrightarrow> DATETIME_unixepoch (cutoffOf l1) = Some t \<longrightarrow>
                    (\<forall>p\<in>set ps. t < datetime p \<longrightarrow>
                       cutoffOf l1 * 1000 \<le> readDate w1 (datetime p))"
  shows "cutoffOf l1 \<le> cutoffOf l2 \<and>
         (\<forall>(k, d) \<in> set (stored (ingest w1)) - set (docs (dstDb w1)).
            \<exists>ms. cutoffOf l1 * 1000 \<le> ms \<and> submittedTimestamp d = fromDate ms)"
proof -
  from ingest_cases[of w1]
  consider (same) "stored (ingest w1) = docs (dstDb w1)"
    | (ran) l rows ds where
        "getLastIngestedRow (dstDb w1) = Inr l"
        "getSrcRows (srcDb w1) (cutoffOf l) = Inr rows"
        "formatRows (geohashForLocation w1) (readDate w1) (clock w1) 0 rows = Inr ds"
        "stored (ingest w1) = written (insertRows (dstDb w1) ds)"
    by blast
  then show ?thesis
  proof cases
    case same
    with a2 have "docs (dstDb w1) = docs (dstDb w2)" by simp
    from getLastIngestedRow_docs[OF a1 a3 this] same show ?thesis by simp
  next
    case ran
    with a1 have ll: "l = l1" by simp
    let ?c = "cutoffOf l1"
    obtain ps where ps: "srcDb w1 = Points ps"
      using ran(2) by (cases "srcDb w1") (auto simp: getSrcRows_def)
    have F: "isHitchwiki d \<and> (\<exists>ms. ?c * 1000 \<le> ms \<and> submittedTimestamp d = fromDate ms)"
      if "d \<in> set ds" for d
    proof -
      from formatRows_from[OF ran(3) that] obtain r j where
        r: "r \<in> set rows"
           "formatRow (geohashForLocation w1) (readDate w1) (clock w1 j) r = Inr d"
        by blast
      from r(1) ran(2) ps ll obtain p where p: "p \<in> set ps" "ingestible ?c p" "r = selectColumns p"
        using getSrcRows_mem[of ps ?c rows r] by auto
      from p(2) obtain t where t: "DATETIME_unixepoch ?c = Some t" "t < datetime p"
        by (auto simp: ingestible_def split: option.splits)
      from alike ps t p(1) have "?c * 1000 \<le> readDate w1 (datetime p)" by blast
      then have "?c * 1000 \<le> readDate w1 (datetime r)"
        using p(3) by (simp add: selectColumns_fields)
      with formatRow_Inr(2,3)[OF r(2)] show ?thesis by blast
    qed
    note sub = insertRows_subset[of "dstDb w1" ds]
    have second: "\<forall>(k, d) \<in> set (stored (ingest w1)) - set (docs (dstDb w1)).
            \<exists>ms. ?c * 1000 \<le> ms \<and> submittedTimestamp d = fromDate ms"
      using sub F unfolding ran(4) by auto
    have first: "?c \<le> cutoffOf l2"
    proof (cases l1)
      case None
      show ?thesis
      proof (cases l2)
        case None
        with \<open>l1 = None\<close> show ?thesis by simp
      next
        case (Some m2)
        from getLastIngestedRow_Some[of "dstDb w2" m2] a3 Some
        obtain k where m2: "isHitchwiki m2" "(k, m2) \<in> set (docs (dstDb w2))" by blast
        have "(k, m2) \<notin> set (docs (dstDb w1))"
          using getLastIngestedRow_None[of "dstDb w1" k m2] a1 None m2(1) by blast
        with m2(2) sub have "m2 \<in> set ds" unfolding a2 ran(4) by auto
        from F[OF this] obtain ms where "?c * 1000 \<le> ms" "submittedTimestamp m2 = fromDate ms"
          by blast
        then have "?c \<le> seconds (submittedTimestamp m2)" using seconds_fromDate by simp
        then show ?thesis using Some by (simp add: cutoffOf_def)
      qed
    next
      case (Some m1)
      from getLastIngestedRow_Some[of "dstDb w1" m1] a1 Some
      obtain k where m1: "isHitchwiki m1" "(k, m1) \<in> set (docs (dstDb w1))" by blast
      from insertRows_keeps[OF m1(2), of ds] obtain d' where
        d': "(k, d') \<in> set (written (insertRows (dstDb w1) ds))" "d' = m1 \<or> d' \<in> set ds"
        by blast
      have "isHitchwiki d' \<and> ?c \<le> seconds (submittedTimestamp d')"
      proof (cases "d' = m1")
        case True
        with m1(1) Some show ?thesis by (simp add: cutoffOf_def)
      next
        case False
        with d'(2) have "d' \<in> set ds" by simp
        from F[OF this] seconds_fromDate show ?thesis by auto
      qed
      moreover have "(k, d') \<in> set (docs (dstDb w2))" using d'(1) a2 ran(4) by simp
      ultimately show ?thesis using cutoff_bounds[OF a3, of k d'] by simp
    qed
    from first second show ?thesis ..
  qed
qed

theorem watermark_monotone_when_read_alike_witness:
  "getLastIngestedRow (dstDb world1) = Inr (Some doc41) \<and>
   docs (dstDb world2) = stored (ingest world1) \<and>
   getLastIngestedRow (dstDb world2) = Inr (Some (built ! 2)) \<and>
   cutoffOf (Some doc41) = 1600000000 \<and>
   cutoffOf (Some (built ! 2)) = 1600000002 \<and>
   cutoffOf (Some doc41) \<le> cutoffOf (Some (built ! 2)) \<and>
   (''hitchwiki-42'', built ! 1) \<in> set (stored (ingest world1)) - set (docs (dstDb world1)) \<and>
   (\<exists>ms. cutoffOf (Some doc41) * 1000 \<le> ms \<and> submittedTimestamp (built ! 1) = fromDate ms)"
proof -
  have d: "docs (dstDb world2) = stored (ingest world1)" by (simp add: world2_def)
  have c: "cutoffOf (Some (built ! 2)) = 1600000002"
    by (simp add: cutoffOf_def built_def docAt_def)
  have m: "(''hitchwiki-42'', built ! 1) \<in>
           set (stored (ingest world1)) - set (docs (dstDb world1))"
    by (simp add: world1_stored storeAfter_def) (simp add: world1_def storeBefore_def)
  have range: "-62167219200 \<le> cutoffOf (Some doc41)" by (simp add: world1_cutoff)
  have more: "dateInZone 0 ''2020-09-13 12:26:43.000'' = 1600000003000"
    "dateInZone 0 ''2020-09-13 12:26:49.000'' = 1600000009000"
    by (simp_all add: dateInZone_def days_from_civil_def digits_def Let_def)
  have alike: "\<forall>ps t. srcDb world1 = Points ps \<longrightarrow>
                 DATETIME_unixepoch (cutoffOf (Some doc41)) = Some t \<longrightarrow>
                 (\<forall>p\<in>set ps. t < datetime p \<longrightarrow>
                    cutoffOf (Some doc41) * 1000 \<le> readDate world1 (datetime p))"
    by (simp add: world1_cutoff DATETIME_values world1_def exampleDump_def pointAt_def
        read_in_UTC more)
  note t = watermark_monotone_when_read_alike[OF world1_last d world2_last range alike]
  from t m have "\<exists>ms. cutoffOf (Some doc41) * 1000 \<le> ms \<and>
                    submittedTimestamp (built ! 1) = fromDate ms"
    by blast
  with t m world1_last d world2_last world1_cutoff c show ?thesis by blast
qed

subsection \<open>A zone west of UTC\<close>

lemma read_in_New_York:
  "dateInZone (-14400) ''2020-09-13 12:26:40.500'' = 1600014400500"
  "dateInZone (-14400) ''2020-09-13 12:26:41.250'' = 1600014401250"
  "dateInZone (-14400) ''2020-09-13 12:26:42.750'' = 1600014402750"
  "dateInZone (-14400) ''2020-09-13 12:26:42.900'' = 1600014402900"
  "dateInZone (-14400) ''2020-09-13 13:00:00.000'' = 1600016400000"
  by (simp_all add: dateInZone_def days_from_civil_def digits_def Let_def)

lemma DATETIME_New_York: "DATETIME_unixepoch 1600014402 = Some ''2020-09-13 16:26:42''"
  by code_simp

lemma worldNewYork_stored:
  "stored (ingest worldNewYork) =
     [(''hitchwiki-41'', builtNewYork ! 0), (''app-1'', appDoc),
      (''hitchwiki-42'', builtNewYork ! 1), (''hitchwiki-43'', builtNewYork ! 2)]"
proof -
  let ?rows = "map selectColumns
            [pointAt ''41'' 3 ''2020-09-13 12:26:40.500'',
             pointAt ''42'' 4 ''2020-09-13 12:26:41.250'',
             pointAt ''43'' 5 ''2020-09-13 12:26:42.750'']"
  have a: "\<not> downloadFails worldNewYork" "dstDb worldNewYork = dstDb world1"
    by (simp_all add: worldNewYork_def) (simp add: world1_def)
  have s: "getSrcRows (srcDb worldNewYork) 1600000000 = Inr ?rows"
    using world1_selected by (simp add: worldNewYork_def)
  have b: "formatRows (geohashForLocation worldNewYork) (readDate worldNewYork)
             (clock worldNewYork) 0 ?rows = Inr builtNewYork"
    by (simp add: worldNewYork_def world1_def formatRow_def GeoPoint_def selectColumns_def
        pointAt_def cleaned_X read_in_New_York fromDate_def builtNewYork_def docAt_def)
  have w: "written (insertRows (dstDb world1) builtNewYork) =
     [(''hitchwiki-41'', builtNewYork ! 0), (''app-1'', appDoc),
      (''hitchwiki-42'', builtNewYork ! 1), (''hitchwiki-43'', builtNewYork ! 2)]"
    by (simp add: insertRows_def world1_def builtNewYork_def storeBefore_def
      doc41_def docAt_def docKey_def setDoc_def Let_def MAX_WRITES_def)
  from example_pass_stored[OF a s b] w show ?thesis by simp
qed

lemma worldNewYork2_docs:
  "docs (dstDb worldNewYork2) =
     [(''hitchwiki-41'', builtNewYork ! 0), (''app-1'', appDoc),
      (''hitchwiki-42'', builtNewYork ! 1), (''hitchwiki-43'', builtNewYork ! 2)]"
  "\<not> queryRejected (dstDb worldNewYork2)"
  "\<not> downloadFails worldNewYork2"
  by (simp_all add: worldNewYork2_def worldNewYork_stored)
     (simp_all add: worldNewYork_def world1_def)

lemma worldNewYork2_last:
  "getLastIngestedRow (dstDb worldNewYork2) = Inr (Some (builtNewYork ! 2))"
  using worldNewYork2_docs(1,2)
  by (simp add: getLastIngestedRow_def builtNewYork_def docAt_def appDoc_def tsKey_def)

lemma worldNewYork2_selected: "getSrcRows (srcDb worldNewYork2) 1600014402 = Inr []"
  by (simp add: getSrcRows_def worldNewYork2_def laterDump_def exampleDump_def pointAt_def
      ingestible_def DATETIME_New_York less_char_def)

text \<open>
  C9. The claim: rows created later within the second of a stored watermark are selected
  again on the next pass, never skipped. In a process four hours west of UTC the
  watermark left by the example pass is 1600014402.75, the reading of the text
  12:26:42.750 as local time; the cutoff 1600014402 is 16:26:42 in SQLite's UTC text.
  Row 45, created at 12:26:42.900, is read as an instant later within that same second,
  and row 46 half an hour after it; no text of the dump comes after the cutoff's text,
  so nothing is selected and the pass leaves the collection as it was.
\<close>

theorem rows_after_watermark_skipped:
  "getLastIngestedRow (dstDb worldNewYork2) = Inr (Some (builtNewYork ! 2)) \<and>
   submittedTimestamp (builtNewYork ! 2) = \<lparr>seconds = 1600014402, nanoseconds = 750000000\<rparr> \<and>
   submittedTimestamp (builtNewYork ! 2) =
     fromDate (readDate worldNewYork2 ''2020-09-13 12:26:42.750'') \<and>
   cutoffOf (Some (builtNewYork ! 2)) = 1600014402 \<and>
   DATETIME_unixepoch 1600014402 = Some ''2020-09-13 16:26:42'' \<and>
   pointAt ''45'' 4 ''2020-09-13 12:26:42.900'' \<in> set laterDump \<and>
   fromDate (readDate worldNewYork2 ''2020-09-13 12:26:42.900'') =
     \<lparr>seconds = 1600014402, nanoseconds = 900000000\<rparr> \<and>
   pointAt ''46'' 5 ''2020-09-13 13:00:00.000'' \<in> set laterDump \<and>
   fromDate (readDate worldNewYork2 ''2020-09-13 13:00:00.000'') =
     \<lparr>seconds = 1600016400, nanoseconds = 0\<rparr> \<and>
   getSrcRows (srcDb worldNewYork2) 1600014402 = Inr [] \<and>
   settled (ingest worldNewYork2) = None \<and>
   stored (ingest worldNewYork2) = docs (dstDb worldNewYork2)"
proof -
  have ts: "submittedTimestamp (builtNewYork ! 2) =
            \<lparr>seconds = 1600014402, nanoseconds = 750000000\<rparr>"
    by (simp add: builtNewYork_def docAt_def)
  have rd: "readDate worldNewYork2 = dateInZone (-14400)"
    by (simp add: worldNewYork2_def worldNewYork_def)
  have ts': "submittedTimestamp (builtNewYork ! 2) =
             fromDate (readDate worldNewYork2 ''2020-09-13 12:26:42.750'')"
    by (simp add: ts rd read_in_New_York fromDate_def)
  have c: "cutoffOf (Some (builtNewYork ! 2)) = 1600014402"
    by (simp add: cutoffOf_def ts)
  have i45: "pointAt ''45'' 4 ''2020-09-13 12:26:42.900'' \<in> set laterDump"
    and i46: "pointAt ''46'' 5 ''2020-09-13 13:00:00.000'' \<in> set laterDump"
    by (simp_all add: laterDump_def)
  have r45: "fromDate (readDate worldNewYork2 ''2020-09-13 12:26:42.900'') =
             \<lparr>seconds = 1600014402, nanoseconds = 900000000\<rparr>"
    and r46: "fromDate (readDate worldNewYork2 ''2020-09-13 13:00:00.000'') =
              \<lparr>seconds = 1600016400, nanoseconds = 0\<rparr>"
    by (simp_all add: rd read_in_New_York fromDate_def)
  have s: "getSrcRows (srcDb worldNewYork2) (cutoffOf (Some (builtNewYork ! 2))) = Inr []"
    using worldNewYork2_selected by (simp add: c)
  have f: "formatRows (geohashForLocation worldNewYork2) (readDate worldNewYork2)
             (clock worldNewYork2) 0 [] = Inr []"
    by simp
  note r = ingest_reaches_writer[OF worldNewYork2_docs(3) worldNewYork2_last s f]
  have w: "written (insertRows (dstDb worldNewYork2) []) = docs (dstDb worldNewYork2)"
    by (simp add: insertRows_def)
  from r(1) w have st: "stored (ingest worldNewYork2) = docs (dstDb worldNewYork2)" by simp
  from worldNewYork2_last ts ts' c DATETIME_New_York i45 r45 i46 r46 worldNewYork2_selected
    r(2) st
  show ?thesis by (intro conjI)
qed

end
